theory Spec2Isabelle
  imports Main
begin

section \<open>Data model of crypto/keyring.go\<close>

text \<open>
  The key ring layer sits on top of an OpenPGP engine (golang.org/x/crypto/openpgp), an
  armor codec and a JSON decoder. None of the three is part of keyring.go: every call into
  them is a function parameter of the model, so each theorem holds for every engine.

  Go's \<open>error\<close> values are compared by identity. The package creates five of them with
  \<open>errors.New\<close>; \<open>ErrSignatureExpired\<close> is the engine's value the code compares against;
  \<open>EngineError\<close> stands for every other error value a collaborator hands back.
\<close>

type_synonym bytes = string

datatype error =
    errKeyringNotUnlocked
  | ErrSignatureExpired
  | errNoPrivateKey
  | errNoKey
  | errNotArmoredMessage
  | errAllKeysExpired
  | EngineError string

text \<open>
  The key record of the JSON wire format. Its \<open>PrivateKey\<close> is the armored key text;
  the name is written \<open>pmKeyObject.PrivateKey\<close> below, where \<open>PrivateKey\<close> alone is the
  field of an entity.
\<close>

record pmKeyObject =
  ID :: string
  Version :: int
  Flags :: int
  Fingerprint :: string
  PublicKey :: string
  PrivateKey :: string
  Primary :: int

text \<open>
  A value that a Go function returns, or the panic of a nil dereference.
\<close>

datatype 'a go = Return 'a | Panic

text \<open>
  \<open>packet.PrivateKey\<close> objects are reached through pointers and \<open>Unlock\<close> flips their
  \<open>Encrypted\<close> flag in place, so they live in a store: an address is the pointer, the
  store maps it to the object. \<open>material\<close> is the opaque key data.
\<close>

type_synonym addr = nat

record packet_PrivateKey =
  Encrypted :: bool
  material :: bytes

type_synonym store = "addr \<Rightarrow> packet_PrivateKey"

text \<open>
  \<open>packet.Signature\<close>, as far as keyring.go reads it: the three capability flags, and the
  expiry that \<open>KeyExpired\<close> looks at.
\<close>

record packet_Signature =
  FlagsValid :: bool
  FlagEncryptStorage :: bool
  FlagEncryptCommunications :: bool
  expiry :: "nat option"

text \<open>
  Modelled from the spec: \<open>packet.Signature.KeyExpired\<close> belongs to the engine. The spec
  gives a subkey an optional expiry timestamp that is examined against "now".
\<close>

definition KeyExpired :: "packet_Signature \<Rightarrow> nat \<Rightarrow> bool" where
  "KeyExpired sig now = (case expiry sig of None \<Rightarrow> False | Some t \<Rightarrow> t < now)"

record Subkey =
  SubPrivateKey :: "addr option"
  Sig :: packet_Signature

record Identity =
  Name :: string
  Email :: string

text \<open>
  \<open>openpgp.Entity\<close> without its public key packets: \<open>PrivateKey\<close> is the pointer to the
  primary private key (\<open>None\<close> is nil), then the subkeys and the identities.
\<close>

record Entity =
  PrivateKey :: "addr option"
  Subkeys :: "Subkey list"
  Identities :: "Identity list"

record KeyRing =
  entities :: "Entity list"
  FirstKeyID :: string

definition GetEntities :: "KeyRing \<Rightarrow> Entity list" where
  "GetEntities kr = entities kr"

section \<open>FilterExpiredKeys\<close>

text \<open>
  The innermost loop of \<open>FilterExpiredKeys\<close>: the pair is \<open>(hasExpired, hasUnexpired)\<close>.
\<close>

fun scan_subkeys :: "nat \<Rightarrow> Subkey list \<Rightarrow> bool \<times> bool \<Rightarrow> bool \<times> bool" where
  "scan_subkeys now [] acc = acc"
| "scan_subkeys now (subkey # rest) (hasExpired, hasUnexpired) =
     (if KeyExpired (Sig subkey) now
      then scan_subkeys now rest (True, hasUnexpired)
      else scan_subkeys now rest (hasExpired, True))"

text \<open>
  The loop over the entities of one ring: the pair is
  \<open>(keyRingHasUnexpiredEntity, keyRingHasTotallyExpiredEntity)\<close>.
\<close>

fun scan_entities :: "nat \<Rightarrow> Entity list \<Rightarrow> bool \<times> bool \<Rightarrow> bool \<times> bool" where
  "scan_entities now [] acc = acc"
| "scan_entities now (entity # rest) (hasUnexp, hasTotal) =
     (case scan_subkeys now (Subkeys entity) (False, False) of
        (hasExpired, hasUnexpired) \<Rightarrow>
          if hasExpired \<and> \<not> hasUnexpired then scan_entities now rest (hasUnexp, True)
          else if hasUnexpired then scan_entities now rest (True, hasTotal)
          else scan_entities now rest (hasUnexp, hasTotal))"

text \<open>
  The loop over the rings: the pair is \<open>(filteredKeys, hasExpiredEntity)\<close>.
\<close>

fun scan_rings :: "nat \<Rightarrow> KeyRing list \<Rightarrow> KeyRing list \<times> bool \<Rightarrow> KeyRing list \<times> bool" where
  "scan_rings now [] acc = acc"
| "scan_rings now (contactKeyRing # rest) (filteredKeys, hasExpiredEntity) =
     (case scan_entities now (GetEntities contactKeyRing) (False, False) of
        (keyRingHasUnexpiredEntity, keyRingHasTotallyExpiredEntity) \<Rightarrow>
          if keyRingHasUnexpiredEntity
          then scan_rings now rest (filteredKeys @ [contactKeyRing], hasExpiredEntity)
          else if keyRingHasTotallyExpiredEntity
          then scan_rings now rest (filteredKeys, True)
          else scan_rings now rest (filteredKeys, hasExpiredEntity))"

text \<open>
  \<open>now\<close> is what \<open>time.Now()\<close> returned. The result is the pair the Go function returns.
\<close>

definition FilterExpiredKeys :: "nat \<Rightarrow> KeyRing list \<Rightarrow> KeyRing list \<times> error option" where
  "FilterExpiredKeys now contactKeys =
     (case scan_rings now contactKeys ([], False) of
        (filteredKeys, hasExpiredEntity) \<Rightarrow>
          if length filteredKeys = 0 \<and> hasExpiredEntity
          then (filteredKeys, Some errAllKeysExpired)
          else (filteredKeys, None))"

section \<open>Entity selection, Encrypt and DetachedSign\<close>

text \<open>
  The test \<open>e.PrivateKey != nil && !e.PrivateKey.Encrypted\<close> of the signing loops.
\<close>

definition unlocked :: "store \<Rightarrow> Entity \<Rightarrow> bool" where
  "unlocked h e = (case PrivateKey e of None \<Rightarrow> False | Some p \<Rightarrow> \<not> Encrypted (h p))"

text \<open>
  The signing loop of \<open>Encrypt\<close> and \<open>DetachedSign\<close>: the first entity that passes the
  test, \<open>None\<close> (nil) when the loop runs out.
\<close>

fun signEntity_of :: "store \<Rightarrow> Entity list \<Rightarrow> Entity option" where
  "signEntity_of h [] = None"
| "signEntity_of h (e # rest) = (if unlocked h e then Some e else signEntity_of h rest)"

text \<open>
  The first loop of \<open>Encrypt\<close>: it appends the entity it is at and breaks.
\<close>

fun encryptEntities_of :: "Entity list \<Rightarrow> Entity list" where
  "encryptEntities_of [] = []"
| "encryptEntities_of (e # rest) = [] @ [e]"

text \<open>
  An \<open>io.Writer\<close> the caller passes in is the bytes written to it so far; an \<open>io.Reader\<close>
  is the bytes that reading it to the end yields, with the error that ends them
  (\<open>None\<close> for a plain EOF).
\<close>

type_synonym writer = bytes

datatype Reader = Reader bytes "error option"

definition NewReader :: "bytes \<Rightarrow> Reader" where
  "NewReader s = Reader s None"

fun ReadAll :: "Reader \<Rightarrow> bytes \<times> error option" where
  "ReadAll (Reader b err) = (b, err)"

datatype CipherFunction = Cipher3DES | CipherCAST5 | CipherAES128 | CipherAES192 | CipherAES256

record packet_Config =
  DefaultCipher :: CipherFunction
  Time :: nat

record FileHints =
  IsBinary :: bool
  FileName :: string

text \<open>
  The engine's two encryption entry points, one parameter: which of them is called, the
  destination, the recipients, the signer, hints and configuration. The engine answers
  with the plaintext writer and the error of the Go pair, and the destination as it left
  it. \<open>'wc\<close> is the engine's writer object.
\<close>

datatype openpgp_encrypt = openpgp_EncryptText | openpgp_Encrypt

type_synonym 'wc encrypt_engine =
  "openpgp_encrypt \<Rightarrow> writer \<Rightarrow> Entity list \<Rightarrow> Entity option \<Rightarrow> FileHints \<Rightarrow> packet_Config
     \<Rightarrow> ('wc option \<times> error option) \<times> writer"

text \<open>
  \<open>timeGenerator\<close> is the time that \<open>GetPmCrypto().GetTime()\<close> gives.
\<close>

definition EncryptCore ::
  "'wc encrypt_engine \<Rightarrow> writer \<Rightarrow> Entity list \<Rightarrow> Entity option \<Rightarrow> string \<Rightarrow> bool \<Rightarrow> nat
     \<Rightarrow> ('wc option \<times> error option) \<times> writer" where
  "EncryptCore eng w encryptEntities signEntity filename canonicalizeText timeGenerator =
     (let config = \<lparr>DefaultCipher = CipherAES256, Time = timeGenerator\<rparr>;
          hints = \<lparr>IsBinary = \<not> canonicalizeText, FileName = filename\<rparr>
      in if canonicalizeText
         then eng openpgp_EncryptText w encryptEntities signEntity hints config
         else eng openpgp_Encrypt w encryptEntities signEntity hints config)"

text \<open>
  \<open>sign\<close> is the optional signer ring (\<open>None\<close> is nil).
\<close>

definition Encrypt ::
  "'wc encrypt_engine \<Rightarrow> nat \<Rightarrow> store \<Rightarrow> KeyRing \<Rightarrow> writer \<Rightarrow> KeyRing option \<Rightarrow> string \<Rightarrow> bool
     \<Rightarrow> ('wc option \<times> error option) \<times> writer" where
  "Encrypt eng getTime h kr w sign filename canonicalizeText =
     (let encryptEntities = encryptEntities_of (entities kr) in
      case sign of
        None \<Rightarrow> EncryptCore eng w encryptEntities None filename canonicalizeText getTime
      | Some signer \<Rightarrow>
          (case signEntity_of h (entities signer) of
             None \<Rightarrow> ((None, Some errKeyringNotUnlocked), w)
           | Some signEntity \<Rightarrow>
               EncryptCore eng w encryptEntities (Some signEntity) filename canonicalizeText
                 getTime))"

text \<open>
  The engine's three detached-signature entry points, one parameter.
\<close>

datatype openpgp_sign =
  openpgp_ArmoredDetachSignText | openpgp_ArmoredDetachSign | openpgp_DetachSign

type_synonym sign_engine =
  "openpgp_sign \<Rightarrow> writer \<Rightarrow> Entity \<Rightarrow> Reader \<Rightarrow> packet_Config \<Rightarrow> error option \<times> writer"

definition DetachedSign ::
  "sign_engine \<Rightarrow> nat \<Rightarrow> store \<Rightarrow> KeyRing \<Rightarrow> writer \<Rightarrow> Reader \<Rightarrow> bool \<Rightarrow> bool
     \<Rightarrow> error option \<times> writer" where
  "DetachedSign eng getTime h kr w toSign canonicalizeText armored =
     (case signEntity_of h (entities kr) of
        None \<Rightarrow> (Some errKeyringNotUnlocked, w)
      | Some signEntity \<Rightarrow>
          (let config = \<lparr>DefaultCipher = CipherAES256, Time = getTime\<rparr>
           in if canonicalizeText
              then eng openpgp_ArmoredDetachSignText w signEntity toSign config
              else if armored
              then eng openpgp_ArmoredDetachSign w signEntity toSign config
              else eng openpgp_DetachSign w signEntity toSign config))"

section \<open>VerifyString\<close>

text \<open>
  \<open>openpgp.CheckArmoredDetachedSignature\<close> reads from the two readers that
  \<open>VerifyString\<close> creates once, before its loop: the engine gets the public entities and
  both readers, and gives back its error and the readers as it left them.
\<close>

type_synonym check_engine =
  "Entity list \<Rightarrow> Reader \<Rightarrow> Reader \<Rightarrow> error option \<times> Reader \<times> Reader"

text \<open>
  The loop over the signer's entities. The state is the two readers and \<open>err\<close>; the
  boolean of the result tells whether the loop left through its \<open>return\<close>.
\<close>

fun verify_loop ::
  "check_engine \<Rightarrow> store \<Rightarrow> Entity list \<Rightarrow> Entity list \<Rightarrow> Reader \<times> Reader \<times> error option
     \<Rightarrow> bool \<times> error option" where
  "verify_loop chk h pub [] (messageReader, signatureReader, err) = (False, err)"
| "verify_loop chk h pub (e # rest) (messageReader, signatureReader, err) =
     (if unlocked h e
      then (case chk pub messageReader signatureReader of
              (err', messageReader', signatureReader') \<Rightarrow>
                if err' = None \<or> err' = Some ErrSignatureExpired
                then (True, err')
                else verify_loop chk h pub rest (messageReader', signatureReader', err'))
      else verify_loop chk h pub rest (messageReader, signatureReader, err))"

definition VerifyString ::
  "check_engine \<Rightarrow> store \<Rightarrow> KeyRing \<Rightarrow> string \<Rightarrow> string \<Rightarrow> KeyRing option \<Rightarrow> error option" where
  "VerifyString chk h kr message signature sign =
     (let messageReader = NewReader message;
          signatureReader = NewReader signature;
          looped = (case sign of
                      None \<Rightarrow> (False, None)
                    | Some signer \<Rightarrow>
                        verify_loop chk h (entities kr) (entities signer)
                          (messageReader, signatureReader, None))
      in case looped of
           (True, err) \<Rightarrow> err
         | (False, err) \<Rightarrow> if err = None then Some errKeyringNotUnlocked else err)"

section \<open>Unlock\<close>

text \<open>
  Modelled from the spec: \<open>packet.PrivateKey.Decrypt\<close> belongs to the engine. Whether the
  passphrase opens a key is the engine's answer (the parameter: \<open>None\<close> is success); by
  the spec a successful decryption turns the key's encrypted flag from true to false, and
  a failed one leaves the key as it is.
\<close>

type_synonym decrypt_engine = "bytes \<Rightarrow> packet_PrivateKey \<Rightarrow> error option"

definition key_Decrypt :: "decrypt_engine \<Rightarrow> bytes \<Rightarrow> addr \<Rightarrow> store \<Rightarrow> error option \<times> store" where
  "key_Decrypt dec passphrase p h =
     (case dec passphrase (h p) of
        None \<Rightarrow> (None, h(p := (h p)\<lparr>Encrypted := False\<rparr>))
      | Some e \<Rightarrow> (Some e, h))"

text \<open>
  The first loop of \<open>Unlock\<close> builds \<open>keys\<close>, a list of pointers: for each entity its
  primary private key when there is one, then the private keys of the subkeys that pass
  the flag test.
\<close>

fun subkeys_to_decrypt :: "Subkey list \<Rightarrow> addr list" where
  "subkeys_to_decrypt [] = []"
| "subkeys_to_decrypt (subKey # rest) =
     (case SubPrivateKey subKey of
        Some p \<Rightarrow>
          if \<not> FlagsValid (Sig subKey) \<or> FlagEncryptStorage (Sig subKey)
               \<or> FlagEncryptCommunications (Sig subKey)
          then p # subkeys_to_decrypt rest
          else subkeys_to_decrypt rest
      | None \<Rightarrow> subkeys_to_decrypt rest)"

fun keys_to_decrypt :: "Entity list \<Rightarrow> addr list" where
  "keys_to_decrypt [] = []"
| "keys_to_decrypt (e # rest) =
     (case PrivateKey e of Some p \<Rightarrow> [p] | None \<Rightarrow> [])
       @ subkeys_to_decrypt (Subkeys e) @ keys_to_decrypt rest"

text \<open>
  The state of the second loop: the store, \<open>err\<close> and \<open>n\<close>. \<open>us_attempted\<close> is not a
  variable of the code: it records, in order, the keys on which \<open>key.Decrypt\<close> was called.
\<close>

record unlock_state =
  us_store :: store
  us_err :: "error option"
  us_n :: nat
  us_attempted :: "addr list"

fun decrypt_keys :: "decrypt_engine \<Rightarrow> bytes \<Rightarrow> addr list \<Rightarrow> unlock_state \<Rightarrow> unlock_state" where
  "decrypt_keys dec passphrase [] s = s"
| "decrypt_keys dec passphrase (key # rest) s =
     (if \<not> Encrypted (us_store s key)
      then decrypt_keys dec passphrase rest s
      else (case key_Decrypt dec passphrase key (us_store s) of
              (None, h') \<Rightarrow>
                decrypt_keys dec passphrase rest
                  (s\<lparr>us_store := h', us_err := None, us_n := us_n s + 1,
                     us_attempted := us_attempted s @ [key]\<rparr>)
            | (Some e, h') \<Rightarrow>
                decrypt_keys dec passphrase rest
                  (s\<lparr>us_store := h', us_err := Some e,
                     us_attempted := us_attempted s @ [key]\<rparr>)))"

definition unlock_init :: "store \<Rightarrow> unlock_state" where
  "unlock_init h = \<lparr>us_store = h, us_err = None, us_n = 0, us_attempted = []\<rparr>"

text \<open>
  \<open>Unlock\<close> returns its error; the state that comes with it here is the store as the call
  left it, with the counter and the record of the decryption attempts.
\<close>

definition Unlock :: "decrypt_engine \<Rightarrow> KeyRing \<Rightarrow> bytes \<Rightarrow> store \<Rightarrow> error option \<times> unlock_state" where
  "Unlock dec kr passphrase h =
     (let keys = keys_to_decrypt (entities kr) in
      if length keys = 0 then (Some errNoPrivateKey, unlock_init h)
      else (let s = decrypt_keys dec passphrase keys (unlock_init h) in
            if us_n s = 0 then (us_err s, s) else (None, s)))"

text \<open>
  \<open>GetSigningEntity\<close> is the one selector that takes a passphrase: it tries it on each
  encrypted primary key it meets, dropping the error, and tests the flag again.
\<close>

fun GetSigningEntity :: "decrypt_engine \<Rightarrow> bytes \<Rightarrow> Entity list \<Rightarrow> store \<Rightarrow> Entity option \<times> store" where
  "GetSigningEntity dec passphrase [] h = (None, h)"
| "GetSigningEntity dec passphrase (e # rest) h =
     (case PrivateKey e of
        None \<Rightarrow> GetSigningEntity dec passphrase rest h
      | Some p \<Rightarrow>
          (let h' = (if Encrypted (h p) then snd (key_Decrypt dec passphrase p h) else h)
           in if \<not> Encrypted (h' p) then (Some e, h')
              else GetSigningEntity dec passphrase rest h'))"

section \<open>Decrypt, DecryptArmored and DecryptString\<close>

text \<open>
  \<open>openpgp.MessageDetails\<close>, as far as keyring.go reads it. The engine checks the
  signature while the body is read, so \<open>SignatureError\<close> is the value the field has once
  the body has been read to its end, which is when \<open>Signature.Err\<close> may be called.
\<close>

record MessageDetails =
  IsSigned :: bool
  UnverifiedBody :: "Reader option"
  SignatureError :: "error option"

record Signature =
  md :: MessageDetails

record SignedString =
  String :: string
  Signed :: "Signature option"

definition Err :: "Signature \<Rightarrow> error option" where
  "Err s = SignatureError (md s)"

record armor_Block =
  Type :: string
  Body :: Reader

text \<open>
  Modelled from the spec: \<open>constants.PGPMessageHeader\<close> is declared in another package;
  the spec gives the envelope as \<open>-----BEGIN PGP MESSAGE-----\<close>.
\<close>

definition PGPMessageHeader :: string where
  "PGPMessageHeader = ''PGP MESSAGE''"

text \<open>
  \<open>openpgp.ReadMessage\<close> and \<open>armor.Decode\<close> return a pointer and an error; \<open>None\<close> in the
  first component is the nil pointer, and reading a field through it panics.
\<close>

type_synonym message_engine = "Reader \<Rightarrow> Entity list \<Rightarrow> MessageDetails option \<times> error option"

type_synonym armor_engine = "Reader \<Rightarrow> armor_Block option \<times> error option"

definition Decrypt ::
  "message_engine \<Rightarrow> KeyRing \<Rightarrow> Reader \<Rightarrow> (Reader option \<times> Signature option \<times> error option) go" where
  "Decrypt ReadMessage kr r =
     (case ReadMessage r (entities kr) of
        (details, err) \<Rightarrow>
          if err \<noteq> None \<and> err \<noteq> Some ErrSignatureExpired
          then Return (None, None, err)
          else (case details of
                  None \<Rightarrow> Panic
                | Some m \<Rightarrow>
                    Return (UnverifiedBody m,
                            (if IsSigned m then Some \<lparr>md = m\<rparr> else None),
                            err)))"

definition DecryptArmored ::
  "armor_engine \<Rightarrow> message_engine \<Rightarrow> KeyRing \<Rightarrow> Reader
     \<Rightarrow> (Reader option \<times> Signature option \<times> error option) go" where
  "DecryptArmored Decode ReadMessage kr r =
     (case Decode r of
        (blk, err) \<Rightarrow>
          if err \<noteq> None \<and> err \<noteq> Some ErrSignatureExpired
          then Return (None, None, err)
          else (case blk of
                  None \<Rightarrow> Panic
                | Some block \<Rightarrow>
                    if Type block \<noteq> PGPMessageHeader
                    then Return (None, None, Some errNotArmoredMessage)
                    else Decrypt ReadMessage kr (Body block)))"

definition DecryptString ::
  "armor_engine \<Rightarrow> message_engine \<Rightarrow> KeyRing \<Rightarrow> string \<Rightarrow> (SignedString \<times> error option) go" where
  "DecryptString Decode ReadMessage kr encrypted =
     (case DecryptArmored Decode ReadMessage kr (NewReader encrypted) of
        Panic \<Rightarrow> Panic
      | Return (r, signed, err) \<Rightarrow>
          if err \<noteq> None \<and> err \<noteq> Some ErrSignatureExpired
          then Return (\<lparr>String = encrypted, Signed = None\<rparr>, err)
          else (case r of
                  None \<Rightarrow> Panic
                | Some body \<Rightarrow>
                    (case ReadAll body of
                       (b, err') \<Rightarrow>
                         if err' \<noteq> None \<and> err' \<noteq> Some ErrSignatureExpired
                         then Return (\<lparr>String = encrypted, Signed = None\<rparr>, err')
                         else Return (\<lparr>String = b, Signed = signed\<rparr>, None))))"

section \<open>Building key rings\<close>

text \<open>
  \<open>openpgp.ReadArmoredKeyRing\<close> (first argument true) and \<open>openpgp.ReadKeyRing\<close> (false)
  return the entities they parsed and an error.
\<close>

type_synonym parse_engine = "bool \<Rightarrow> Reader \<Rightarrow> Entity list \<times> error option"

text \<open>
  \<open>readFrom\<close> returns its error; the ring that comes with it is the receiver as the call
  left it. The loop over the parsed entities replaces \<open>PrimaryKey\<close> and \<open>PublicKey\<close> of
  ECDSA keys with recomputed public key packets: it reads and writes nothing that an
  entity of this model carries, and is the identity here.
\<close>

definition readFrom :: "parse_engine \<Rightarrow> KeyRing \<Rightarrow> Reader \<Rightarrow> bool \<Rightarrow> error option \<times> KeyRing" where
  "readFrom parse kr r armored =
     (case parse armored r of
        (parsed, err) \<Rightarrow>
          if err \<noteq> None then (err, kr)
          else if length parsed = 0 then (Some errNoKey, kr)
          else (None, kr\<lparr>entities := entities kr @ parsed\<rparr>))"

text \<open>
  \<open>&KeyRing{}\<close>: no entities, the empty label.
\<close>

definition empty_KeyRing :: KeyRing where
  "empty_KeyRing = \<lparr>entities = [], FirstKeyID = []\<rparr>"

definition ReadArmoredKeyRing :: "parse_engine \<Rightarrow> Reader \<Rightarrow> KeyRing \<times> error option" where
  "ReadArmoredKeyRing parse r =
     (case readFrom parse empty_KeyRing r True of (err, kr) \<Rightarrow> (kr, err))"

definition ReadKeyRing :: "parse_engine \<Rightarrow> Reader \<Rightarrow> KeyRing \<times> error option" where
  "ReadKeyRing parse r =
     (case readFrom parse empty_KeyRing r False of (err, kr) \<Rightarrow> (kr, err))"

definition BuildKeyRing :: "parse_engine \<Rightarrow> bytes \<Rightarrow> KeyRing \<times> error option" where
  "BuildKeyRing parse binKeys =
     (case readFrom parse empty_KeyRing (NewReader binKeys) False of (err, kr) \<Rightarrow> (kr, err))"

definition BuildKeyRingNoError :: "parse_engine \<Rightarrow> bytes \<Rightarrow> KeyRing" where
  "BuildKeyRingNoError parse binKeys = fst (BuildKeyRing parse binKeys)"

text \<open>
  \<open>armorUtils.Unarmor\<close> returns the raw bytes and an error; \<open>BuildKeyRingArmored\<close>
  overwrites that error with the one of \<open>openpgp.ReadKeyRing\<close>.
\<close>

definition BuildKeyRingArmored ::
  "(string \<Rightarrow> bytes \<times> error option) \<Rightarrow> parse_engine \<Rightarrow> string \<Rightarrow> KeyRing \<times> error option" where
  "BuildKeyRingArmored Unarmor parse key =
     (case Unarmor key of
        (keyRaw, err0) \<Rightarrow>
          (case parse False (NewReader keyRaw) of
             (keyEntries, err) \<Rightarrow> (\<lparr>entities = keyEntries, FirstKeyID = []\<rparr>, err)))"

definition PrivateKeyReader :: "pmKeyObject \<Rightarrow> Reader" where
  "PrivateKeyReader ko = NewReader (pmKeyObject.PrivateKey ko)"

text \<open>
  The loop of \<open>UnmarshalJSON\<close> over the key records, \<open>i\<close> the index: the result of
  \<open>readFrom\<close> is not assigned, so only the ring it leaves goes on.
\<close>

fun read_keyObjs :: "parse_engine \<Rightarrow> nat \<Rightarrow> pmKeyObject list \<Rightarrow> KeyRing \<Rightarrow> KeyRing" where
  "read_keyObjs parse i [] kr = kr"
| "read_keyObjs parse i (ko # rest) kr =
     (let kr1 = (if i = 0 then kr\<lparr>FirstKeyID := ID ko\<rparr> else kr);
          kr2 = snd (readFrom parse kr1 (PrivateKeyReader ko) True)
      in read_keyObjs parse (Suc i) rest kr2)"

text \<open>
  \<open>json.Unmarshal\<close> into a slice of key records returns the records and an error.
\<close>

type_synonym json_engine = "bytes \<Rightarrow> pmKeyObject list \<times> error option"

definition UnmarshalJSON :: "json_engine \<Rightarrow> parse_engine \<Rightarrow> KeyRing \<Rightarrow> bytes \<Rightarrow> error option \<times> KeyRing" where
  "UnmarshalJSON Unmarshal parse kr b =
     (let kr0 = kr\<lparr>entities := []\<rparr> in
      case Unmarshal b of
        (keyObjs, err) \<Rightarrow>
          if err \<noteq> None then (err, kr0)
          else if length keyObjs = 0 then (None, kr0)
          else (None, read_keyObjs parse 0 keyObjs kr0))"

section \<open>The armored encryption writer\<close>

text \<open>
  The two streams of an \<open>armorEncryptWriter\<close> are objects behind the \<open>io.WriteCloser\<close>
  interface: a stream is named by its identity, what its \<open>Close\<close> does to the state of
  the streams and which error it returns is a parameter, and every call of \<open>Close\<close> and
  \<open>Write\<close> is appended to a log.
\<close>

type_synonym stream = nat

datatype io_event = Wrote stream bytes | Closed stream

record armorEncryptWriter =
  aw :: stream
  ew :: stream

type_synonym 's close_fn = "stream \<Rightarrow> 's \<Rightarrow> error option \<times> 's"

type_synonym 's write_fn = "stream \<Rightarrow> bytes \<Rightarrow> 's \<Rightarrow> (int \<times> error option) \<times> 's"

definition call_Close :: "'s close_fn \<Rightarrow> stream \<Rightarrow> 's \<times> io_event list \<Rightarrow> error option \<times> 's \<times> io_event list" where
  "call_Close cl w st =
     (case st of (s, log) \<Rightarrow> (case cl w s of (err, s') \<Rightarrow> (err, s', log @ [Closed w])))"

definition call_Write ::
  "'s write_fn \<Rightarrow> stream \<Rightarrow> bytes \<Rightarrow> 's \<times> io_event list \<Rightarrow> (int \<times> error option) \<times> 's \<times> io_event list" where
  "call_Write wr w b st =
     (case st of (s, log) \<Rightarrow> (case wr w b s of (res, s') \<Rightarrow> (res, s', log @ [Wrote w b])))"

definition armorEncryptWriter_Write ::
  "'s write_fn \<Rightarrow> armorEncryptWriter \<Rightarrow> bytes \<Rightarrow> 's \<times> io_event list
     \<Rightarrow> (int \<times> error option) \<times> 's \<times> io_event list" where
  "armorEncryptWriter_Write wr w b st = call_Write wr (ew w) b st"

definition armorEncryptWriter_Close ::
  "'s close_fn \<Rightarrow> armorEncryptWriter \<Rightarrow> 's \<times> io_event list \<Rightarrow> error option \<times> 's \<times> io_event list" where
  "armorEncryptWriter_Close cl w st =
     (case call_Close cl (ew w) st of
        (err, st') \<Rightarrow> if err \<noteq> None then (err, st') else call_Close cl (aw w) st')"

section \<open>The expiry filter in the words of the specification\<close>

text \<open>
  The words of the specification, for comparison with the loops: an entity is unexpired
  when one of its subkeys is not expired, totally expired when it has a subkey and all of
  its subkeys are expired; a ring is kept when one of its entities is unexpired.
\<close>

definition spec_entity_unexpired :: "nat \<Rightarrow> Entity \<Rightarrow> bool" where
  "spec_entity_unexpired now e = (\<exists>sk \<in> set (Subkeys e). \<not> KeyExpired (Sig sk) now)"

definition spec_entity_totally_expired :: "nat \<Rightarrow> Entity \<Rightarrow> bool" where
  "spec_entity_totally_expired now e =
     (Subkeys e \<noteq> [] \<and> (\<forall>sk \<in> set (Subkeys e). KeyExpired (Sig sk) now))"

definition spec_ring_kept :: "nat \<Rightarrow> KeyRing \<Rightarrow> bool" where
  "spec_ring_kept now kr = (\<exists>e \<in> set (entities kr). spec_entity_unexpired now e)"

definition spec_ring_has_totally_expired :: "nat \<Rightarrow> KeyRing \<Rightarrow> bool" where
  "spec_ring_has_totally_expired now kr =
     (\<exists>e \<in> set (entities kr). spec_entity_totally_expired now e)"

section \<open>Example rings and engines\<close>

text \<open>
  A store with three private keys: two encrypted ones, opened by different passphrases,
  and one that is already decrypted. The example engine opens a key when the passphrase
  is the key's material.
\<close>

definition ex_store :: store where
  "ex_store p =
     (if p = 0 then \<lparr>Encrypted = True, material = ''alpha''\<rparr>
      else if p = 1 then \<lparr>Encrypted = True, material = ''beta''\<rparr>
      else \<lparr>Encrypted = False, material = ''gamma''\<rparr>)"

definition ex_dec :: decrypt_engine where
  "ex_dec passphrase key =
     (if passphrase = material key then None else Some (EngineError ''wrong passphrase''))"

definition ex_sig :: packet_Signature where
  "ex_sig = \<lparr>FlagsValid = True, FlagEncryptStorage = True,
             FlagEncryptCommunications = True, expiry = None\<rparr>"

definition ex_sig_expired :: packet_Signature where
  "ex_sig_expired = \<lparr>FlagsValid = True, FlagEncryptStorage = True,
                     FlagEncryptCommunications = True, expiry = Some 5\<rparr>"

definition alice :: Entity where
  "alice = \<lparr>PrivateKey = Some 0,
            Subkeys = [\<lparr>SubPrivateKey = Some 1, Sig = ex_sig\<rparr>],
            Identities = [\<lparr>Name = ''alice'', Email = ''alice@example.org''\<rparr>]\<rparr>"

definition bob :: Entity where
  "bob = \<lparr>PrivateKey = Some 2,
          Subkeys = [\<lparr>SubPrivateKey = None, Sig = ex_sig_expired\<rparr>],
          Identities = [\<lparr>Name = ''bob'', Email = ''bob@example.org''\<rparr>]\<rparr>"

definition carol :: Entity where
  "carol = \<lparr>PrivateKey = None, Subkeys = [],
            Identities = [\<lparr>Name = ''carol'', Email = ''carol@example.org''\<rparr>]\<rparr>"

definition ring_alice :: KeyRing where
  "ring_alice = \<lparr>entities = [alice], FirstKeyID = ''a''\<rparr>"

definition ring_bob :: KeyRing where
  "ring_bob = \<lparr>entities = [bob], FirstKeyID = ''b''\<rparr>"

definition ring_carol :: KeyRing where
  "ring_carol = \<lparr>entities = [carol], FirstKeyID = ''c''\<rparr>"

definition ring_alice_bob :: KeyRing where
  "ring_alice_bob = \<lparr>entities = [alice, bob], FirstKeyID = ''a''\<rparr>"

text \<open>
  A second entity whose primary key is already decrypted, and a ring of two such entities.
\<close>

definition dave :: Entity where
  "dave = \<lparr>PrivateKey = Some 3, Subkeys = [],
           Identities = [\<lparr>Name = ''dave'', Email = ''dave@example.org''\<rparr>]\<rparr>"

definition ring_bob_dave :: KeyRing where
  "ring_bob_dave = \<lparr>entities = [bob, dave], FirstKeyID = ''b''\<rparr>"

text \<open>
  An encryption engine that writes a header to the destination and hands back, as its
  writer object, the recipients it was given; a signing engine that writes a signature.
\<close>

definition ex_encrypt :: "(Entity list) encrypt_engine" where
  "ex_encrypt entry w recipients signer hints config =
     ((Some recipients, None), w @ ''header'')"

definition ex_sign :: sign_engine where
  "ex_sign entry w signer toSign config = (None, w @ ''signature'')"

text \<open>
  A verification engine that judges by the signature text and reads both readers to
  their end.
\<close>

fun ex_check :: check_engine where
  "ex_check pub (Reader m me) (Reader sg se) =
     ((if sg = ''good'' then None
       else if sg = ''expired'' then Some ErrSignatureExpired
       else Some (EngineError ''invalid signature'')),
      Reader [] me, Reader [] se)"

text \<open>
  Message details of three signed messages: one whose signature has expired, one whose
  signature does not verify, and one whose body breaks off. The example armor codec
  decodes four texts as PGP messages and one as a public key block; the example message
  engine reports the expired signature through its error too, the signature that does not
  verify in the details only, and knows no other packets.
\<close>

definition md_expired :: MessageDetails where
  "md_expired = \<lparr>IsSigned = True, UnverifiedBody = Some (Reader ''hello'' None),
                 SignatureError = Some ErrSignatureExpired\<rparr>"

definition md_forged :: MessageDetails where
  "md_forged = \<lparr>IsSigned = True, UnverifiedBody = Some (Reader ''pay mallory'' None),
                SignatureError = Some (EngineError ''invalid signature'')\<rparr>"

definition md_truncated :: MessageDetails where
  "md_truncated = \<lparr>IsSigned = True,
                   UnverifiedBody = Some (Reader ''hel'' (Some (EngineError ''unexpected EOF''))),
                   SignatureError = None\<rparr>"

fun ex_Decode :: armor_engine where
  "ex_Decode (Reader b e) =
     (if b = ''expired'' \<or> b = ''forged'' \<or> b = ''truncated'' \<or> b = ''garbage''
      then (Some \<lparr>Type = PGPMessageHeader, Body = Reader b None\<rparr>, None)
      else if b = ''public key''
      then (Some \<lparr>Type = ''PGP PUBLIC KEY BLOCK'', Body = Reader b None\<rparr>, None)
      else (None, Some (EngineError ''no armored data found'')))"

fun ex_ReadMessage :: message_engine where
  "ex_ReadMessage (Reader b e) keys =
     (if b = ''expired'' then (Some md_expired, Some ErrSignatureExpired)
      else if b = ''forged'' then (Some md_forged, None)
      else if b = ''truncated'' then (Some md_truncated, None)
      else (None, Some (EngineError ''unknown packet'')))"

text \<open>
  A key parser that finds one entity in the text \<open>alice\<close>, fails on \<open>junk\<close> and finds
  nothing, without an error, in anything else; an armor codec for keys that hands the text
  on; a JSON decoder for two inputs.
\<close>

fun ex_parse :: parse_engine where
  "ex_parse armored (Reader b e) =
     (if b = ''alice'' then ([alice], None)
      else if b = ''junk'' then ([], Some (EngineError ''malformed packet''))
      else ([], None))"

definition ex_Unarmor :: "string \<Rightarrow> bytes \<times> error option" where
  "ex_Unarmor key = (key, None)"

definition ex_Unmarshal :: json_engine where
  "ex_Unmarshal b =
     (if b = ''[]'' then ([], None)
      else if b = ''[{alice}]''
      then ([\<lparr>ID = ''k1'', Version = 3, Flags = 3, Fingerprint = ''f1'', PublicKey = [],
               PrivateKey = ''alice'', Primary = 1\<rparr>], None)
      else ([], Some (EngineError ''invalid character'')))"

text \<open>
  Streams whose state counts the calls of \<open>Close\<close>; the stream 7 fails to close.
\<close>

definition ex_close :: "nat close_fn" where
  "ex_close w s = ((if w = 7 then Some (EngineError ''flush failed'') else None), Suc s)"

section \<open>Decryption and the expired signature\<close>

text \<open>
  C1, as stated, has every verification failure other than an expired signature abort with
  an error. The engine checks the signature while the body is read and records the result
  in the message details; \<open>Decrypt\<close> and \<open>DecryptString\<close> look at the error the engine
  returns, not at that record. For a message whose signature does not verify, both return
  the whole plaintext and a nil error; the failure is what \<open>Err\<close> of the handle says.
\<close>

theorem DecryptString_invalid_signature_counterexample:
  "Decrypt ex_ReadMessage ring_alice (Reader ''forged'' None)
     = Return (Some (Reader ''pay mallory'' None), Some \<lparr>md = md_forged\<rparr>, None) \<and>
   DecryptString ex_Decode ex_ReadMessage ring_alice ''forged''
     = Return (\<lparr>String = ''pay mallory'', Signed = Some \<lparr>md = md_forged\<rparr>\<rparr>, None) \<and>
   Err \<lparr>md = md_forged\<rparr> = Some (EngineError ''invalid signature'')"
  by (simp add: DecryptString_def DecryptArmored_def Decrypt_def NewReader_def
      PGPMessageHeader_def md_forged_def Err_def)

text \<open>
  C1, amended. When \<open>ReadMessage\<close> returns message details with no error or with
  \<open>ErrSignatureExpired\<close>, \<open>Decrypt\<close> returns the body, a handle on those details when the
  message is signed, and that same error value: an expired signature is handed to the
  caller as \<open>ErrSignatureExpired\<close> next to the content. \<open>DecryptString\<close> reads the body
  and, when the reading ends with no error or with \<open>ErrSignatureExpired\<close>, returns all the
  bytes read, the handle and a nil error. Any other error of \<open>ReadMessage\<close> aborts:
  \<open>Decrypt\<close> returns it with no body and no handle, \<open>DecryptString\<close> returns it with its
  input string and no handle, as it does with any other error that ends the reading of the
  body. What \<open>Err\<close> of a handle says is the \<open>SignatureError\<close> the engine recorded; the
  code never sets it.
\<close>

theorem Decrypt_tolerates_SignatureExpired:
  "(ReadMessage r (entities kr) = (Some m, err) \<and> (err = None \<or> err = Some ErrSignatureExpired) \<longrightarrow>
      Decrypt ReadMessage kr r
        = Return (UnverifiedBody m, (if IsSigned m then Some \<lparr>md = m\<rparr> else None), err)) \<and>
   (ReadMessage r (entities kr) = (mo, Some e) \<and> e \<noteq> ErrSignatureExpired \<longrightarrow>
      Decrypt ReadMessage kr r = Return (None, None, Some e)) \<and>
   (Decode (NewReader encrypted) = (Some block, derr) \<and>
    (derr = None \<or> derr = Some ErrSignatureExpired) \<and> Type block = PGPMessageHeader \<and>
    ReadMessage (Body block) (entities kr) = (Some m, err) \<and>
    (err = None \<or> err = Some ErrSignatureExpired) \<and>
    UnverifiedBody m = Some body \<and> ReadAll body = (b, rerr) \<and>
    (rerr = None \<or> rerr = Some ErrSignatureExpired) \<longrightarrow>
      DecryptString Decode ReadMessage kr encrypted
        = Return (\<lparr>String = b, Signed = (if IsSigned m then Some \<lparr>md = m\<rparr> else None)\<rparr>, None)) \<and>
   (Decode (NewReader encrypted) = (Some block, derr) \<and>
    (derr = None \<or> derr = Some ErrSignatureExpired) \<and> Type block = PGPMessageHeader \<and>
    ReadMessage (Body block) (entities kr) = (mo, Some e) \<and> e \<noteq> ErrSignatureExpired \<longrightarrow>
      DecryptString Decode ReadMessage kr encrypted
        = Return (\<lparr>String = encrypted, Signed = None\<rparr>, Some e)) \<and>
   (Decode (NewReader encrypted) = (Some block, derr) \<and>
    (derr = None \<or> derr = Some ErrSignatureExpired) \<and> Type block = PGPMessageHeader \<and>
    ReadMessage (Body block) (entities kr) = (Some m, err) \<and>
    (err = None \<or> err = Some ErrSignatureExpired) \<and>
    UnverifiedBody m = Some body \<and> ReadAll body = (b, Some e) \<and> e \<noteq> ErrSignatureExpired \<longrightarrow>
      DecryptString Decode ReadMessage kr encrypted
        = Return (\<lparr>String = encrypted, Signed = None\<rparr>, Some e)) \<and>
   Err \<lparr>md = m\<rparr> = SignatureError m"
proof -
  have A: "Decrypt ReadMessage kr r
        = Return (UnverifiedBody m, (if IsSigned m then Some \<lparr>md = m\<rparr> else None), err)"
    if "ReadMessage r (entities kr) = (Some m, err)" "err = None \<or> err = Some ErrSignatureExpired"
    for r m err
    using that by (auto simp: Decrypt_def)
  have B: "Decrypt ReadMessage kr r = Return (None, None, Some e)"
    if "ReadMessage r (entities kr) = (mo, Some e)" "e \<noteq> ErrSignatureExpired" for r mo e
    using that by (simp add: Decrypt_def)
  have C: "DecryptString Decode ReadMessage kr encrypted
        = Return (\<lparr>String = b, Signed = (if IsSigned m then Some \<lparr>md = m\<rparr> else None)\<rparr>, None)"
    if "Decode (NewReader encrypted) = (Some block, derr)"
       "derr = None \<or> derr = Some ErrSignatureExpired" "Type block = PGPMessageHeader"
       "ReadMessage (Body block) (entities kr) = (Some m, err)"
       "err = None \<or> err = Some ErrSignatureExpired"
       "UnverifiedBody m = Some body" "ReadAll body = (b, rerr)"
       "rerr = None \<or> rerr = Some ErrSignatureExpired"
  proof -
    have "DecryptArmored Decode ReadMessage kr (NewReader encrypted)
        = Return (Some body, (if IsSigned m then Some \<lparr>md = m\<rparr> else None), err)"
      using that(1-3) A[OF that(4,5)] that(6) by (auto simp: DecryptArmored_def)
    then show ?thesis
      using that(5,7,8) by (auto simp: DecryptString_def)
  qed
  have D: "DecryptString Decode ReadMessage kr encrypted
        = Return (\<lparr>String = encrypted, Signed = None\<rparr>, Some e)"
    if "Decode (NewReader encrypted) = (Some block, derr)"
       "derr = None \<or> derr = Some ErrSignatureExpired" "Type block = PGPMessageHeader"
       "ReadMessage (Body block) (entities kr) = (mo, Some e)" "e \<noteq> ErrSignatureExpired"
  proof -
    have "DecryptArmored Decode ReadMessage kr (NewReader encrypted) = Return (None, None, Some e)"
      using that(1-3) B[OF that(4,5)] by (auto simp: DecryptArmored_def)
    then show ?thesis
      using that(5) by (simp add: DecryptString_def)
  qed
  have F: "DecryptString Decode ReadMessage kr encrypted
        = Return (\<lparr>String = encrypted, Signed = None\<rparr>, Some e)"
    if "Decode (NewReader encrypted) = (Some block, derr)"
       "derr = None \<or> derr = Some ErrSignatureExpired" "Type block = PGPMessageHeader"
       "ReadMessage (Body block) (entities kr) = (Some m, err)"
       "err = None \<or> err = Some ErrSignatureExpired"
       "UnverifiedBody m = Some body" "ReadAll body = (b, Some e)" "e \<noteq> ErrSignatureExpired"
  proof -
    have "DecryptArmored Decode ReadMessage kr (NewReader encrypted)
        = Return (Some body, (if IsSigned m then Some \<lparr>md = m\<rparr> else None), err)"
      using that(1-3) A[OF that(4,5)] that(6) by (auto simp: DecryptArmored_def)
    then show ?thesis
      using that(5,7,8) by (auto simp: DecryptString_def)
  qed
  have E: "Err \<lparr>md = m\<rparr> = SignatureError m" by (simp add: Err_def)
  show ?thesis using A B C D F E by blast
qed

text \<open>
  The example engine at the message with the expired signature, and at packets it cannot
  read.
\<close>

theorem Decrypt_tolerates_SignatureExpired_witness:
  "Decrypt ex_ReadMessage ring_alice (Reader ''expired'' None)
     = Return (Some (Reader ''hello'' None), Some \<lparr>md = md_expired\<rparr>, Some ErrSignatureExpired) \<and>
   DecryptString ex_Decode ex_ReadMessage ring_alice ''expired''
     = Return (\<lparr>String = ''hello'', Signed = Some \<lparr>md = md_expired\<rparr>\<rparr>, None) \<and>
   Err \<lparr>md = md_expired\<rparr> = Some ErrSignatureExpired \<and>
   Decrypt ex_ReadMessage ring_alice (Reader ''garbage'' None)
     = Return (None, None, Some (EngineError ''unknown packet'')) \<and>
   DecryptString ex_Decode ex_ReadMessage ring_alice ''garbage''
     = Return (\<lparr>String = ''garbage'', Signed = None\<rparr>, Some (EngineError ''unknown packet''))"
proof -
  note th = Decrypt_tolerates_SignatureExpired[where ReadMessage = ex_ReadMessage
      and r = "Reader ''expired'' None" and kr = ring_alice and m = md_expired
      and err = "Some ErrSignatureExpired" and Decode = ex_Decode and encrypted = "''expired''"
      and block = "\<lparr>Type = PGPMessageHeader, Body = Reader ''expired'' None\<rparr>"
      and derr = None and body = "Reader ''hello'' None" and b = "''hello''" and rerr = None]
  note th2 = Decrypt_tolerates_SignatureExpired[where ReadMessage = ex_ReadMessage
      and r = "Reader ''garbage'' None" and kr = ring_alice and mo = None
      and e = "EngineError ''unknown packet''" and Decode = ex_Decode
      and encrypted = "''garbage''"
      and block = "\<lparr>Type = PGPMessageHeader, Body = Reader ''garbage'' None\<rparr>"
      and derr = None]
  have 1: "Decrypt ex_ReadMessage ring_alice (Reader ''expired'' None)
     = Return (Some (Reader ''hello'' None), Some \<lparr>md = md_expired\<rparr>, Some ErrSignatureExpired)"
    using th[THEN conjunct1] by (simp add: md_expired_def)
  have 2: "DecryptString ex_Decode ex_ReadMessage ring_alice ''expired''
     = Return (\<lparr>String = ''hello'', Signed = Some \<lparr>md = md_expired\<rparr>\<rparr>, None)"
    using th[THEN conjunct2, THEN conjunct2, THEN conjunct1]
    by (simp add: md_expired_def NewReader_def)
  have 3: "Err \<lparr>md = md_expired\<rparr> = Some ErrSignatureExpired"
    using th[THEN conjunct2, THEN conjunct2, THEN conjunct2, THEN conjunct2]
    by (simp add: md_expired_def)
  have 4: "Decrypt ex_ReadMessage ring_alice (Reader ''garbage'' None)
     = Return (None, None, Some (EngineError ''unknown packet''))"
    using th2[THEN conjunct2, THEN conjunct1] by simp
  have 5: "DecryptString ex_Decode ex_ReadMessage ring_alice ''garbage''
     = Return (\<lparr>String = ''garbage'', Signed = None\<rparr>, Some (EngineError ''unknown packet''))"
    using th2[THEN conjunct2, THEN conjunct2, THEN conjunct2, THEN conjunct1]
    by (simp add: NewReader_def)
  from 1 2 3 4 5 show ?thesis by blast
qed

section \<open>The decryption loop of Unlock\<close>

lemma decrypt_keys_n_mono: "us_n s \<le> us_n (decrypt_keys dec pw ks s)"
proof (induction ks arbitrary: s)
  case Nil
  then show ?case by simp
next
  case (Cons k ks)
  show ?case
  proof (cases "Encrypted (us_store s k)")
    case False
    then show ?thesis using Cons.IH[of s] by simp
  next
    case True
    show ?thesis
    proof (cases "dec pw (us_store s k)")
      case None
      then show ?thesis
        using True Cons.IH[of "s\<lparr>us_store := (us_store s)(k := (us_store s k)\<lparr>Encrypted := False\<rparr>),
            us_err := None, us_n := us_n s + 1, us_attempted := us_attempted s @ [k]\<rparr>"]
        by (simp add: key_Decrypt_def)
    next
      case (Some e)
      then show ?thesis
        using True Cons.IH[of "s\<lparr>us_store := us_store s, us_err := Some e,
            us_attempted := us_attempted s @ [k]\<rparr>"]
        by (simp add: key_Decrypt_def)
    qed
  qed
qed

lemma decrypt_keys_attempted:
  "set (us_attempted (decrypt_keys dec pw ks s)) =
     set (us_attempted s) \<union> {p \<in> set ks. Encrypted (us_store s p)}"
proof (induction ks arbitrary: s)
  case Nil
  then show ?case by simp
next
  case (Cons k ks)
  show ?case
  proof (cases "Encrypted (us_store s k)")
    case False
    then show ?thesis using Cons.IH[of s] by auto
  next
    case True
    show ?thesis
    proof (cases "dec pw (us_store s k)")
      case None
      then show ?thesis
        using True Cons.IH[of "s\<lparr>us_store := (us_store s)(k := (us_store s k)\<lparr>Encrypted := False\<rparr>),
            us_err := None, us_n := us_n s + 1, us_attempted := us_attempted s @ [k]\<rparr>"]
        by (auto simp: key_Decrypt_def)
    next
      case (Some e)
      then show ?thesis
        using True Cons.IH[of "s\<lparr>us_store := us_store s, us_err := Some e,
            us_attempted := us_attempted s @ [k]\<rparr>"]
        by (auto simp: key_Decrypt_def)
    qed
  qed
qed

lemma decrypt_keys_no_success:
  "us_n (decrypt_keys dec pw ks s) = us_n s \<Longrightarrow>
   us_store (decrypt_keys dec pw ks s) = us_store s \<and>
   (\<exists>ys. us_attempted (decrypt_keys dec pw ks s) = us_attempted s @ ys \<and>
      (ys = [] \<and> us_err (decrypt_keys dec pw ks s) = us_err s \<or>
       ys \<noteq> [] \<and> (\<exists>e. us_err (decrypt_keys dec pw ks s) = Some e \<and>
                        dec pw (us_store s (last ys)) = Some e)))"
proof (induction ks arbitrary: s)
  case Nil
  then show ?case by simp
next
  case (Cons k ks)
  show ?case
  proof (cases "Encrypted (us_store s k)")
    case False
    then have step: "decrypt_keys dec pw (k # ks) s = decrypt_keys dec pw ks s" by simp
    show ?thesis unfolding step by (rule Cons.IH) (use Cons.prems step in simp)
  next
    case True
    show ?thesis
    proof (cases "dec pw (us_store s k)")
      case None
      let ?s' = "s\<lparr>us_store := (us_store s)(k := (us_store s k)\<lparr>Encrypted := False\<rparr>),
            us_err := None, us_n := us_n s + 1, us_attempted := us_attempted s @ [k]\<rparr>"
      have step: "decrypt_keys dec pw (k # ks) s = decrypt_keys dec pw ks ?s'"
        using True None by (simp add: key_Decrypt_def)
      have "us_n ?s' \<le> us_n (decrypt_keys dec pw ks ?s')" by (rule decrypt_keys_n_mono)
      then have False using Cons.prems step by simp
      then show ?thesis ..
    next
      case (Some e)
      let ?s' = "s\<lparr>us_err := Some e, us_attempted := us_attempted s @ [k]\<rparr>"
      let ?f = "decrypt_keys dec pw ks ?s'"
      have step: "decrypt_keys dec pw (k # ks) s = ?f"
        using True Some by (simp add: key_Decrypt_def)
      have n: "us_n ?f = us_n ?s'"
        using Cons.prems step by simp
      from Cons.IH[OF n] obtain ys where
        st: "us_store ?f = us_store ?s'" and
        at: "us_attempted ?f = us_attempted ?s' @ ys" and
        er: "ys = [] \<and> us_err ?f = us_err ?s' \<or>
             ys \<noteq> [] \<and> (\<exists>e. us_err ?f = Some e \<and> dec pw (us_store ?s' (last ys)) = Some e)"
        by blast
      have a: "us_attempted ?f = us_attempted s @ (k # ys)"
        using at by simp
      have b: "\<exists>e. us_err ?f = Some e \<and> dec pw (us_store s (last (k # ys))) = Some e"
        using er Some by auto
      have c: "us_store ?f = us_store s" using st by simp
      show ?thesis
        unfolding step using a b c by (intro conjI exI[of _ "k # ys"]) simp_all
    qed
  qed
qed

lemma decrypt_keys_store:
  "us_store (decrypt_keys dec pw ks s) p = us_store s p \<or>
   (p \<in> set ks \<and> Encrypted (us_store s p) \<and>
    us_store (decrypt_keys dec pw ks s) p = (us_store s p)\<lparr>Encrypted := False\<rparr>)"
proof (induction ks arbitrary: s)
  case Nil
  then show ?case by simp
next
  case (Cons k ks)
  show ?case
  proof (cases "Encrypted (us_store s k)")
    case False
    then show ?thesis using Cons.IH[of s] by auto
  next
    case True
    show ?thesis
    proof (cases "dec pw (us_store s k)")
      case None
      let ?s' = "s\<lparr>us_store := (us_store s)(k := (us_store s k)\<lparr>Encrypted := False\<rparr>),
            us_err := None, us_n := us_n s + 1, us_attempted := us_attempted s @ [k]\<rparr>"
      have step: "decrypt_keys dec pw (k # ks) s = decrypt_keys dec pw ks ?s'"
        using True None by (simp add: key_Decrypt_def)
      show ?thesis
        unfolding step using Cons.IH[of ?s'] True by (cases "p = k") auto
    next
      case (Some e)
      let ?s' = "s\<lparr>us_err := Some e, us_attempted := us_attempted s @ [k]\<rparr>"
      have step: "decrypt_keys dec pw (k # ks) s = decrypt_keys dec pw ks ?s'"
        using True Some by (simp add: key_Decrypt_def)
      show ?thesis
        unfolding step using Cons.IH[of ?s'] by auto
    qed
  qed
qed

lemma decrypt_keys_count:
  "us_n (decrypt_keys dec pw ks s) =
     us_n s + card {p. Encrypted (us_store s p) \<and> \<not> Encrypted (us_store (decrypt_keys dec pw ks s) p)}"
proof (induction ks arbitrary: s)
  case Nil
  then show ?case by simp
next
  case (Cons k ks)
  show ?case
  proof (cases "Encrypted (us_store s k)")
    case False
    then show ?thesis using Cons.IH[of s] by simp
  next
    case True
    show ?thesis
    proof (cases "dec pw (us_store s k)")
      case None
      let ?s' = "s\<lparr>us_store := (us_store s)(k := (us_store s k)\<lparr>Encrypted := False\<rparr>),
            us_err := None, us_n := us_n s + 1, us_attempted := us_attempted s @ [k]\<rparr>"
      let ?f = "decrypt_keys dec pw ks ?s'"
      let ?A' = "{p. Encrypted (us_store ?s' p) \<and> \<not> Encrypted (us_store ?f p)}"
      let ?A = "{p. Encrypted (us_store s p) \<and> \<not> Encrypted (us_store ?f p)}"
      have step: "decrypt_keys dec pw (k # ks) s = ?f"
        using True None by (simp add: key_Decrypt_def)
      have st: "\<And>p. us_store ?f p = us_store ?s' p \<or>
          (p \<in> set ks \<and> Encrypted (us_store ?s' p) \<and>
           us_store ?f p = (us_store ?s' p)\<lparr>Encrypted := False\<rparr>)"
        by (rule decrypt_keys_store)
      have fin: "finite ?A'"
      proof (rule finite_subset)
        show "?A' \<subseteq> set ks"
        proof
          fix x assume "x \<in> ?A'"
          then show "x \<in> set ks" using st[of x] by auto
        qed
      qed simp
      have notin: "k \<notin> ?A'" by simp
      have kdec: "\<not> Encrypted (us_store ?f k)" using st[of k] by auto
      have "?A = insert k ?A'"
        using True kdec by auto
      then have "card ?A = Suc (card ?A')"
        using fin notin by simp
      then show ?thesis
        unfolding step using Cons.IH[of ?s'] by simp
    next
      case (Some e)
      let ?s' = "s\<lparr>us_err := Some e, us_attempted := us_attempted s @ [k]\<rparr>"
      have step: "decrypt_keys dec pw (k # ks) s = decrypt_keys dec pw ks ?s'"
        using True Some by (simp add: key_Decrypt_def)
      show ?thesis
        unfolding step using Cons.IH[of ?s'] by simp
    qed
  qed
qed

lemma keys_to_decrypt_subkeys:
  "p \<in> set (subkeys_to_decrypt sks) \<longleftrightarrow>
   (\<exists>sk \<in> set sks. SubPrivateKey sk = Some p \<and>
      (\<not> FlagsValid (Sig sk) \<or> FlagEncryptStorage (Sig sk) \<or> FlagEncryptCommunications (Sig sk)))"
  by (induction sks) (auto split: option.splits)

lemma keys_to_decrypt_mem:
  "p \<in> set (keys_to_decrypt es) \<longleftrightarrow>
   (\<exists>e \<in> set es. PrivateKey e = Some p \<or>
      (\<exists>sk \<in> set (Subkeys e). SubPrivateKey sk = Some p \<and>
         (\<not> FlagsValid (Sig sk) \<or> FlagEncryptStorage (Sig sk) \<or> FlagEncryptCommunications (Sig sk))))"
  by (induction es) (auto simp: keys_to_decrypt_subkeys split: option.splits)

text \<open>
  C2. For every key ring and passphrase, with \<open>n\<close> the counter of \<open>Unlock\<close>, which is the
  number of keys that were encrypted before the call and are decrypted after it:
  \<open>Unlock\<close> returns nil whenever \<open>n\<close> is positive, whatever stays encrypted; when it
  returns an error then \<open>n\<close> is zero; and when it returns an error although the ring has
  keys to decrypt, that error is the one of the last decryption it attempted.
\<close>

theorem Unlock_partial_success:
  assumes "Unlock dec kr passphrase h = (res, s)"
  shows "us_n s = card {p. Encrypted (h p) \<and> \<not> Encrypted (us_store s p)} \<and>
         (0 < us_n s \<longrightarrow> res = None) \<and>
         (res \<noteq> None \<longrightarrow> us_n s = 0) \<and>
         (\<forall>e. res = Some e \<and> keys_to_decrypt (entities kr) \<noteq> [] \<longrightarrow>
              us_attempted s \<noteq> [] \<and> dec passphrase (h (last (us_attempted s))) = Some e)"
proof (cases "keys_to_decrypt (entities kr) = []")
  case True
  then have "res = Some errNoPrivateKey" and "s = unlock_init h"
    using assms by (simp_all add: Unlock_def)
  then show ?thesis using True by (simp add: unlock_init_def)
next
  case False
  let ?f = "decrypt_keys dec passphrase (keys_to_decrypt (entities kr)) (unlock_init h)"
  have s: "s = ?f" and res: "res = (if us_n ?f = 0 then us_err ?f else None)"
    using assms False by (auto simp: Unlock_def Let_def split: if_splits)
  have cnt: "us_n s = card {p. Encrypted (h p) \<and> \<not> Encrypted (us_store s p)}"
    using decrypt_keys_count[of dec passphrase "keys_to_decrypt (entities kr)" "unlock_init h"]
    unfolding s by (simp add: unlock_init_def)
  have last_error: "us_attempted s \<noteq> [] \<and> dec passphrase (h (last (us_attempted s))) = Some e"
    if "res = Some e" for e
  proof -
    from that res have n0: "us_n ?f = us_n (unlock_init h)" and err: "us_err ?f = Some e"
      by (auto simp: unlock_init_def split: if_splits)
    from decrypt_keys_no_success[OF n0] obtain ys where
      at: "us_attempted ?f = us_attempted (unlock_init h) @ ys" and
      er: "ys = [] \<and> us_err ?f = us_err (unlock_init h) \<or>
           ys \<noteq> [] \<and> (\<exists>e. us_err ?f = Some e \<and>
              dec passphrase (us_store (unlock_init h) (last ys)) = Some e)"
      by blast
    from er err have "ys \<noteq> []" and "dec passphrase (h (last ys)) = Some e"
      by (auto simp: unlock_init_def)
    then show ?thesis using at unfolding s by (simp add: unlock_init_def)
  qed
  have pos: "0 < us_n s \<longrightarrow> res = None"
    using res unfolding s by simp
  have fail: "res \<noteq> None \<longrightarrow> us_n s = 0"
    using res unfolding s by (simp split: if_splits)
  show ?thesis using cnt pos fail last_error by blast
qed

text \<open>
  The ring of \<open>alice\<close> has two keys under different passphrases. With the passphrase of
  the first, \<open>Unlock\<close> succeeds with \<open>n = 1\<close> and the second key stays encrypted; with a
  passphrase that opens neither, it returns the error of the second, the last, attempt.
\<close>

theorem Unlock_partial_success_witness:
  "fst (Unlock ex_dec ring_alice ''alpha'' ex_store) = None \<and>
   us_n (snd (Unlock ex_dec ring_alice ''alpha'' ex_store)) = 1 \<and>
   Encrypted (us_store (snd (Unlock ex_dec ring_alice ''alpha'' ex_store)) 1) \<and>
   Unlock ex_dec ring_alice ''omega'' ex_store =
     (Some (EngineError ''wrong passphrase''),
      \<lparr>us_store = ex_store, us_err = Some (EngineError ''wrong passphrase''), us_n = 0,
       us_attempted = [0, 1]\<rparr>) \<and>
   ex_dec ''omega'' (ex_store (last [0, 1])) = Some (EngineError ''wrong passphrase'')"
proof -
  have run: "Unlock ex_dec ring_alice ''omega'' ex_store =
     (Some (EngineError ''wrong passphrase''),
      \<lparr>us_store = ex_store, us_err = Some (EngineError ''wrong passphrase''), us_n = 0,
       us_attempted = [0, 1]\<rparr>)"
    by (simp add: Unlock_def unlock_init_def key_Decrypt_def ring_alice_def alice_def
        ex_sig_def ex_store_def ex_dec_def)
  have ok: "fst (Unlock ex_dec ring_alice ''alpha'' ex_store) = None \<and>
     us_n (snd (Unlock ex_dec ring_alice ''alpha'' ex_store)) = 1 \<and>
     Encrypted (us_store (snd (Unlock ex_dec ring_alice ''alpha'' ex_store)) 1)"
    by (simp add: Unlock_def unlock_init_def key_Decrypt_def ring_alice_def alice_def
        ex_sig_def ex_store_def ex_dec_def)
  from Unlock_partial_success[OF run]
  have "ex_dec ''omega'' (ex_store (last [0, 1])) = Some (EngineError ''wrong passphrase'')"
    by (simp add: ring_alice_def alice_def ex_sig_def)
  with run ok show ?thesis by simp
qed

section \<open>The loops of FilterExpiredKeys, in closed form\<close>

lemma scan_subkeys_eq:
  "scan_subkeys now sks (hE, hU) =
     (hE \<or> (\<exists>sk \<in> set sks. KeyExpired (Sig sk) now),
      hU \<or> (\<exists>sk \<in> set sks. \<not> KeyExpired (Sig sk) now))"
  by (induction sks arbitrary: hE hU) auto

lemma scan_entities_eq:
  "scan_entities now es (u, t) =
     (u \<or> (\<exists>e \<in> set es. spec_entity_unexpired now e),
      t \<or> (\<exists>e \<in> set es. spec_entity_totally_expired now e))"
proof (induction es arbitrary: u t)
  case Nil
  then show ?case by simp
next
  case (Cons e es)
  have tot: "spec_entity_totally_expired now e \<longleftrightarrow>
      (\<exists>sk \<in> set (Subkeys e). KeyExpired (Sig sk) now) \<and>
      \<not> (\<exists>sk \<in> set (Subkeys e). \<not> KeyExpired (Sig sk) now)"
    unfolding spec_entity_totally_expired_def by (cases "Subkeys e") auto
  show ?case
    using Cons.IH
    by (auto simp: scan_subkeys_eq tot spec_entity_unexpired_def)
qed

lemma scan_rings_eq:
  "scan_rings now krs (f, h) =
     (f @ filter (spec_ring_kept now) krs,
      h \<or> (\<exists>kr \<in> set krs. \<not> spec_ring_kept now kr \<and> spec_ring_has_totally_expired now kr))"
proof (induction krs arbitrary: f h)
  case Nil
  then show ?case by simp
next
  case (Cons kr krs)
  show ?case
    using Cons.IH
    by (auto simp: scan_entities_eq GetEntities_def spec_ring_kept_def
        spec_ring_has_totally_expired_def)
qed

text \<open>
  C3. For every list of key rings, \<open>FilterExpiredKeys\<close> returns the rings that have an
  entity with a subkey that is not expired, in their order, and nothing else; its error is
  \<open>errAllKeysExpired\<close> exactly when no ring is kept and some ring of the input has a
  totally expired entity (one with a subkey, all of whose subkeys are expired), and is nil
  otherwise, so that a ring of neither kind is dropped without an error.
\<close>

theorem FilterExpiredKeys_spec:
  "FilterExpiredKeys now contactKeys =
     (filter (spec_ring_kept now) contactKeys,
      if filter (spec_ring_kept now) contactKeys = [] \<and>
         (\<exists>kr \<in> set contactKeys. spec_ring_has_totally_expired now kr)
      then Some errAllKeysExpired else None)"
proof -
  have "filter (spec_ring_kept now) contactKeys = [] \<Longrightarrow>
        (\<exists>kr \<in> set contactKeys. \<not> spec_ring_kept now kr \<and> spec_ring_has_totally_expired now kr)
        = (\<exists>kr \<in> set contactKeys. spec_ring_has_totally_expired now kr)"
    by (auto simp: filter_empty_conv)
  then show ?thesis
    unfolding FilterExpiredKeys_def by (auto simp: scan_rings_eq)
qed

text \<open>
  At time 10 the subkey of \<open>bob\<close> has expired, the one of \<open>alice\<close> never does and
  \<open>carol\<close> has none.
\<close>

theorem FilterExpiredKeys_spec_witness:
  "FilterExpiredKeys 10 [ring_bob, ring_alice, ring_carol] = ([ring_alice], None) \<and>
   FilterExpiredKeys 10 [ring_bob, ring_carol] = ([], Some errAllKeysExpired) \<and>
   FilterExpiredKeys 10 [ring_carol] = ([], None)"
proof -
  have a: "spec_ring_kept 10 ring_alice"
    by (simp add: spec_ring_kept_def spec_entity_unexpired_def ring_alice_def alice_def
        ex_sig_def KeyExpired_def)
  have b: "\<not> spec_ring_kept 10 ring_bob" "spec_ring_has_totally_expired 10 ring_bob"
    by (simp_all add: spec_ring_kept_def spec_entity_unexpired_def ring_bob_def bob_def
        spec_ring_has_totally_expired_def spec_entity_totally_expired_def
        ex_sig_expired_def KeyExpired_def)
  have c: "\<not> spec_ring_kept 10 ring_carol" "\<not> spec_ring_has_totally_expired 10 ring_carol"
    by (simp_all add: spec_ring_kept_def spec_entity_unexpired_def ring_carol_def carol_def
        spec_ring_has_totally_expired_def spec_entity_totally_expired_def)
  show ?thesis
    using FilterExpiredKeys_spec[of 10 "[ring_bob, ring_alice, ring_carol]"]
      FilterExpiredKeys_spec[of 10 "[ring_bob, ring_carol]"]
      FilterExpiredKeys_spec[of 10 "[ring_carol]"]
    by (simp add: a b c)
qed

section \<open>Key rings without entities\<close>

text \<open>
  C4, as stated, has every way of building a key ring fail when no entity was parsed.
  \<open>UnmarshalJSON\<close> returns before it reads anything when the array of key records is
  empty, with a nil error and a ring of no entities; \<open>BuildKeyRingArmored\<close> wraps whatever
  the engine parsed, and \<open>BuildKeyRingNoError\<close> drops the error by name.
\<close>

theorem UnmarshalJSON_empty_ring_counterexample:
  "UnmarshalJSON ex_Unmarshal ex_parse empty_KeyRing ''[]''
     = (None, \<lparr>entities = [], FirstKeyID = []\<rparr>) \<and>
   BuildKeyRingArmored ex_Unarmor ex_parse ''nothing''
     = (\<lparr>entities = [], FirstKeyID = []\<rparr>, None) \<and>
   BuildKeyRingNoError ex_parse ''nothing'' = \<lparr>entities = [], FirstKeyID = []\<rparr>"
  by (simp add: UnmarshalJSON_def ex_Unmarshal_def empty_KeyRing_def BuildKeyRingArmored_def
      ex_Unarmor_def NewReader_def BuildKeyRingNoError_def BuildKeyRing_def readFrom_def)

text \<open>
  C4, amended. \<open>readFrom\<close>, for binary and for armored input, returns \<open>errNoKey\<close> and
  leaves the ring alone when the engine parses no entity and reports no error; an error of
  the engine is returned in its place; and when \<open>readFrom\<close> returns nil the ring has gained
  the parsed entities and is not empty. \<open>ReadArmoredKeyRing\<close>, \<open>ReadKeyRing\<close> and
  \<open>BuildKeyRing\<close> return \<open>errNoKey\<close> on such input. \<open>UnmarshalJSON\<close> of an empty array
  of key records returns nil and a ring of no entities.
\<close>

theorem readFrom_rejects_empty_parse:
  "(parse armored r = ([], None) \<longrightarrow> readFrom parse kr r armored = (Some errNoKey, kr)) \<and>
   (parse armored r = (parsed, Some e) \<longrightarrow> readFrom parse kr r armored = (Some e, kr)) \<and>
   (readFrom parse kr r armored = (None, kr') \<longrightarrow>
      entities kr' \<noteq> [] \<and> entities kr' = entities kr @ fst (parse armored r)) \<and>
   (parse True r = ([], None) \<longrightarrow> ReadArmoredKeyRing parse r = (empty_KeyRing, Some errNoKey)) \<and>
   (parse False r = ([], None) \<longrightarrow> ReadKeyRing parse r = (empty_KeyRing, Some errNoKey)) \<and>
   (parse False (NewReader binKeys) = ([], None) \<longrightarrow>
      BuildKeyRing parse binKeys = (empty_KeyRing, Some errNoKey)) \<and>
   (Unmarshal b = ([], None) \<longrightarrow>
      UnmarshalJSON Unmarshal parse kr b = (None, kr\<lparr>entities := []\<rparr>))"
  by (auto simp: readFrom_def ReadArmoredKeyRing_def ReadKeyRing_def BuildKeyRing_def
      UnmarshalJSON_def split: prod.splits if_splits)

theorem readFrom_rejects_empty_parse_witness:
  "readFrom ex_parse ring_bob (NewReader ''nothing'') True = (Some errNoKey, ring_bob) \<and>
   readFrom ex_parse ring_bob (NewReader ''junk'') False
     = (Some (EngineError ''malformed packet''), ring_bob) \<and>
   readFrom ex_parse ring_bob (NewReader ''alice'') True
     = (None, \<lparr>entities = [bob, alice], FirstKeyID = ''b''\<rparr>) \<and>
   ReadArmoredKeyRing ex_parse (NewReader ''nothing'') = (empty_KeyRing, Some errNoKey) \<and>
   ReadKeyRing ex_parse (NewReader ''nothing'') = (empty_KeyRing, Some errNoKey) \<and>
   BuildKeyRing ex_parse ''nothing'' = (empty_KeyRing, Some errNoKey) \<and>
   UnmarshalJSON ex_Unmarshal ex_parse ring_bob ''[]''
     = (None, \<lparr>entities = [], FirstKeyID = ''b''\<rparr>)"
proof -
  note th = readFrom_rejects_empty_parse[where parse = ex_parse and armored = True
      and r = "NewReader ''nothing''" and kr = ring_bob and binKeys = "''nothing''"
      and Unmarshal = ex_Unmarshal and b = "''[]''"]
  note th2 = readFrom_rejects_empty_parse[where parse = ex_parse and armored = False
      and r = "NewReader ''junk''" and kr = ring_bob and parsed = "[]"
      and e = "EngineError ''malformed packet''"]
  have 1: "readFrom ex_parse ring_bob (NewReader ''nothing'') True = (Some errNoKey, ring_bob)"
    using th[THEN conjunct1] by (simp add: NewReader_def)
  have 2: "readFrom ex_parse ring_bob (NewReader ''junk'') False
     = (Some (EngineError ''malformed packet''), ring_bob)"
    using th2[THEN conjunct2, THEN conjunct1] by (simp add: NewReader_def)
  have 3: "readFrom ex_parse ring_bob (NewReader ''alice'') True
     = (None, \<lparr>entities = [bob, alice], FirstKeyID = ''b''\<rparr>)"
    by (simp add: readFrom_def NewReader_def ring_bob_def)
  have 4: "ReadArmoredKeyRing ex_parse (NewReader ''nothing'') = (empty_KeyRing, Some errNoKey)"
    using th[THEN conjunct2, THEN conjunct2, THEN conjunct2, THEN conjunct1]
    by (simp add: NewReader_def)
  have 5: "ReadKeyRing ex_parse (NewReader ''nothing'') = (empty_KeyRing, Some errNoKey)"
    using th[THEN conjunct2, THEN conjunct2, THEN conjunct2, THEN conjunct2, THEN conjunct1]
    by (simp add: NewReader_def)
  have 6: "BuildKeyRing ex_parse ''nothing'' = (empty_KeyRing, Some errNoKey)"
    using th[THEN conjunct2, THEN conjunct2, THEN conjunct2, THEN conjunct2, THEN conjunct2,
        THEN conjunct1]
    by (simp add: NewReader_def)
  have 7: "UnmarshalJSON ex_Unmarshal ex_parse ring_bob ''[]''
     = (None, \<lparr>entities = [], FirstKeyID = ''b''\<rparr>)"
    using th[THEN conjunct2, THEN conjunct2, THEN conjunct2, THEN conjunct2, THEN conjunct2,
        THEN conjunct2]
    by (simp add: ex_Unmarshal_def ring_bob_def)
  from 1 2 3 4 5 6 7 show ?thesis by blast
qed

section \<open>Signing needs a decrypted key\<close>

lemma unlocked_iff: "unlocked h e \<longleftrightarrow> (\<exists>p. PrivateKey e = Some p \<and> \<not> Encrypted (h p))"
  by (simp add: unlocked_def split: option.splits)

lemma signEntity_of_None: "signEntity_of h es = None \<longleftrightarrow> (\<forall>e \<in> set es. \<not> unlocked h e)"
  by (induction es) auto

text \<open>
  C5. For every recipient ring and every signer ring in which no entity has a private key
  that is present and decrypted, \<open>Encrypt\<close> with that signer and \<open>DetachedSign\<close> on that
  ring return \<open>errKeyringNotUnlocked\<close> and leave the destination as it was, whatever the
  engine: it is not called. Neither function has a passphrase among its arguments, and
  neither can change the store.
\<close>

theorem signing_requires_unlocked_key:
  assumes "\<forall>e \<in> set (entities signer). \<forall>p. PrivateKey e = Some p \<longrightarrow> Encrypted (h p)"
  shows "Encrypt eng getTime h kr w (Some signer) filename canonicalizeText
           = ((None, Some errKeyringNotUnlocked), w) \<and>
         DetachedSign seng getTime h signer w toSign canonicalizeText armored
           = (Some errKeyringNotUnlocked, w)"
proof -
  from assms have "\<forall>e \<in> set (entities signer). \<not> unlocked h e"
    by (auto simp: unlocked_iff)
  then have "signEntity_of h (entities signer) = None"
    by (simp add: signEntity_of_None)
  then show ?thesis
    by (simp add: Encrypt_def DetachedSign_def)
qed

text \<open>
  The keys of \<open>alice\<close> are encrypted, the primary key of \<open>bob\<close> is not.
\<close>

theorem signing_requires_unlocked_key_witness:
  "Encrypt ex_encrypt 0 ex_store ring_bob ''out'' (Some ring_alice) ''msg.txt'' False
     = ((None, Some errKeyringNotUnlocked), ''out'') \<and>
   DetachedSign ex_sign 0 ex_store ring_alice ''out'' (NewReader ''text'') False True
     = (Some errKeyringNotUnlocked, ''out'') \<and>
   Encrypt ex_encrypt 0 ex_store ring_alice ''out'' (Some ring_bob) ''msg.txt'' False
     = ((Some [alice], None), ''outheader'') \<and>
   DetachedSign ex_sign 0 ex_store ring_bob ''out'' (NewReader ''text'') False True
     = (None, ''outsignature'')"
proof -
  have locked: "\<forall>e \<in> set (entities ring_alice). \<forall>p. PrivateKey e = Some p \<longrightarrow> Encrypted (ex_store p)"
    by (simp add: ring_alice_def alice_def ex_store_def)
  have open_ring: "Encrypt ex_encrypt 0 ex_store ring_alice ''out'' (Some ring_bob) ''msg.txt'' False
     = ((Some [alice], None), ''outheader'') \<and>
   DetachedSign ex_sign 0 ex_store ring_bob ''out'' (NewReader ''text'') False True
     = (None, ''outsignature'')"
    by (simp add: Encrypt_def EncryptCore_def DetachedSign_def ring_alice_def ring_bob_def
        bob_def unlocked_def ex_store_def ex_encrypt_def ex_sign_def)
  from signing_requires_unlocked_key[OF locked] open_ring show ?thesis by blast
qed

section \<open>The recipient of Encrypt\<close>

text \<open>
  C6. For every ring with one or more entities, \<open>Encrypt\<close> gives the engine the list of
  the first entity alone as recipients, without a signer and with each signing entity; the
  entities after the first have no influence on the result.
\<close>

theorem Encrypt_first_entity_only:
  assumes "entities kr = e # es"
  shows "Encrypt eng getTime h kr w sign filename canonicalizeText
           = Encrypt eng getTime h (kr\<lparr>entities := [e]\<rparr>) w sign filename canonicalizeText \<and>
         Encrypt eng getTime h kr w None filename canonicalizeText
           = eng (if canonicalizeText then openpgp_EncryptText else openpgp_Encrypt) w [e] None
               \<lparr>IsBinary = \<not> canonicalizeText, FileName = filename\<rparr>
               \<lparr>DefaultCipher = CipherAES256, Time = getTime\<rparr> \<and>
         (\<forall>signer signEntity. signEntity_of h (entities signer) = Some signEntity \<longrightarrow>
            Encrypt eng getTime h kr w (Some signer) filename canonicalizeText
              = eng (if canonicalizeText then openpgp_EncryptText else openpgp_Encrypt) w [e]
                  (Some signEntity)
                  \<lparr>IsBinary = \<not> canonicalizeText, FileName = filename\<rparr>
                  \<lparr>DefaultCipher = CipherAES256, Time = getTime\<rparr>)"
  using assms by (simp add: Encrypt_def EncryptCore_def)

theorem Encrypt_first_entity_only_witness:
  "entities ring_alice_bob = alice # [bob] \<and>
   Encrypt ex_encrypt 0 ex_store ring_alice_bob [] None ''msg.txt'' True
     = ((Some [alice], None), ''header'') \<and>
   Encrypt ex_encrypt 0 ex_store ring_alice_bob [] (Some ring_bob) ''msg.txt'' False
     = ((Some [alice], None), ''header'')"
proof -
  have ents: "entities ring_alice_bob = alice # [bob]"
    by (simp add: ring_alice_bob_def)
  have signer: "signEntity_of ex_store (entities ring_bob) = Some bob"
    by (simp add: ring_bob_def bob_def unlocked_def ex_store_def)
  note plain = Encrypt_first_entity_only[OF ents, of ex_encrypt 0 ex_store "[]" None
      "''msg.txt''" True, THEN conjunct2, THEN conjunct1]
  note signed = Encrypt_first_entity_only[OF ents, of ex_encrypt 0 ex_store "[]" None
      "''msg.txt''" False, THEN conjunct2, THEN conjunct2, rule_format, OF signer]
  have a: "Encrypt ex_encrypt 0 ex_store ring_alice_bob [] None ''msg.txt'' True
     = ((Some [alice], None), ''header'')"
    using plain by (simp add: ex_encrypt_def)
  have b: "Encrypt ex_encrypt 0 ex_store ring_alice_bob [] (Some ring_bob) ''msg.txt'' False
     = ((Some [alice], None), ''header'')"
    using signed by (simp add: ex_encrypt_def)
  from ents a b show ?thesis by blast
qed

section \<open>What Unlock attempts\<close>

text \<open>
  C7, as stated, would have \<open>Unlock\<close> attempt the decryption of every key it collects.
  The ring of \<open>bob\<close> has one such key, the primary key at address 2, which is already
  decrypted: \<open>Unlock\<close> passes over it, attempts nothing and returns nil.
\<close>

theorem Unlock_skips_decrypted_key_counterexample:
  "keys_to_decrypt (entities ring_bob) = [2] \<and>
   Unlock ex_dec ring_bob ''alpha'' ex_store =
     (None, \<lparr>us_store = ex_store, us_err = None, us_n = 0, us_attempted = []\<rparr>) \<and>
   set (us_attempted (snd (Unlock ex_dec ring_bob ''alpha'' ex_store)))
     \<noteq> set (keys_to_decrypt (entities ring_bob))"
  by (simp add: Unlock_def unlock_init_def ring_bob_def bob_def ex_sig_expired_def ex_store_def)

text \<open>
  C7, amended. \<open>Unlock\<close> collects the primary private key of every entity that has one
  (it tests no capability of a primary key) and the private key of every subkey whose
  flags are invalid or mark it for encryption of storage or of communications. It attempts
  the decryption of exactly the collected keys that are still encrypted. When it collects
  no key it returns \<open>errNoPrivateKey\<close>, having attempted no decryption and changed
  nothing.
\<close>

theorem Unlock_attempts_encrypted_candidates:
  assumes "Unlock dec kr passphrase h = (res, s)"
  shows "(\<forall>p. p \<in> set (keys_to_decrypt (entities kr)) \<longleftrightarrow>
            (\<exists>e \<in> set (entities kr). PrivateKey e = Some p \<or>
               (\<exists>sk \<in> set (Subkeys e). SubPrivateKey sk = Some p \<and>
                  (\<not> FlagsValid (Sig sk) \<or> FlagEncryptStorage (Sig sk) \<or>
                   FlagEncryptCommunications (Sig sk))))) \<and>
         set (us_attempted s) = {p \<in> set (keys_to_decrypt (entities kr)). Encrypted (h p)} \<and>
         (keys_to_decrypt (entities kr) = [] \<longrightarrow>
            res = Some errNoPrivateKey \<and> us_attempted s = [] \<and> us_store s = h)"
proof -
  have mem: "\<forall>p. p \<in> set (keys_to_decrypt (entities kr)) \<longleftrightarrow>
            (\<exists>e \<in> set (entities kr). PrivateKey e = Some p \<or>
               (\<exists>sk \<in> set (Subkeys e). SubPrivateKey sk = Some p \<and>
                  (\<not> FlagsValid (Sig sk) \<or> FlagEncryptStorage (Sig sk) \<or>
                   FlagEncryptCommunications (Sig sk))))"
    by (simp only: keys_to_decrypt_mem) simp
  have empty: "res = Some errNoPrivateKey \<and> us_attempted s = [] \<and> us_store s = h"
    if "keys_to_decrypt (entities kr) = []"
    using assms that by (auto simp: Unlock_def unlock_init_def)
  have att: "set (us_attempted s) = {p \<in> set (keys_to_decrypt (entities kr)). Encrypted (h p)}"
  proof (cases "keys_to_decrypt (entities kr) = []")
    case True
    then show ?thesis using empty by simp
  next
    case False
    then have "s = decrypt_keys dec passphrase (keys_to_decrypt (entities kr)) (unlock_init h)"
      using assms by (auto simp: Unlock_def Let_def split: if_splits)
    then show ?thesis
      using decrypt_keys_attempted[of dec passphrase "keys_to_decrypt (entities kr)" "unlock_init h"]
      by (simp add: unlock_init_def)
  qed
  show ?thesis using mem att empty by blast
qed

text \<open>
  The ring of \<open>alice\<close> and \<open>bob\<close> has the keys 0, 1 and 2, of which 0 and 1 are
  encrypted; the ring of \<open>carol\<close> has no private key.
\<close>

theorem Unlock_attempts_encrypted_candidates_witness:
  "keys_to_decrypt (entities ring_alice_bob) = [0, 1, 2] \<and>
   set (us_attempted (snd (Unlock ex_dec ring_alice_bob ''alpha'' ex_store))) = {0, 1} \<and>
   keys_to_decrypt (entities ring_carol) = [] \<and>
   fst (Unlock ex_dec ring_carol ''alpha'' ex_store) = Some errNoPrivateKey \<and>
   us_attempted (snd (Unlock ex_dec ring_carol ''alpha'' ex_store)) = []"
proof -
  have keys: "keys_to_decrypt (entities ring_alice_bob) = [0, 1, 2]"
    by (simp add: ring_alice_bob_def alice_def bob_def ex_sig_def ex_sig_expired_def)
  have none: "keys_to_decrypt (entities ring_carol) = []"
    by (simp add: ring_carol_def carol_def)
  have enc: "{p \<in> set [0, 1, 2 :: nat]. Encrypted (ex_store p)} = {0, 1}"
    by (auto simp: ex_store_def)
  have run1: "Unlock ex_dec ring_alice_bob ''alpha'' ex_store =
      (fst (Unlock ex_dec ring_alice_bob ''alpha'' ex_store),
       snd (Unlock ex_dec ring_alice_bob ''alpha'' ex_store))"
    by simp
  have run2: "Unlock ex_dec ring_carol ''alpha'' ex_store =
      (fst (Unlock ex_dec ring_carol ''alpha'' ex_store),
       snd (Unlock ex_dec ring_carol ''alpha'' ex_store))"
    by simp
  from Unlock_attempts_encrypted_candidates[OF run1]
  have a: "set (us_attempted (snd (Unlock ex_dec ring_alice_bob ''alpha'' ex_store))) = {0, 1}"
    unfolding keys enc by blast
  from Unlock_attempts_encrypted_candidates[OF run2] none
  have b: "fst (Unlock ex_dec ring_carol ''alpha'' ex_store) = Some errNoPrivateKey \<and>
           us_attempted (snd (Unlock ex_dec ring_carol ''alpha'' ex_store)) = []"
    by blast
  show ?thesis using keys none a b by blast
qed

section \<open>Detached verification\<close>

lemma verify_loop_locked:
  "\<forall>e \<in> set es. \<not> unlocked h e \<Longrightarrow> verify_loop chk h pub es (mr, sr, err) = (False, err)"
  by (induction es) auto

lemma verify_loop_expired:
  "\<exists>e \<in> set es. unlocked h e \<Longrightarrow> fst (chk pub mr sr) = Some ErrSignatureExpired \<Longrightarrow>
   verify_loop chk h pub es (mr, sr, err) = (True, Some ErrSignatureExpired)"
  by (induction es) (auto split: prod.splits)

lemma verify_loop_accepted:
  "\<exists>e \<in> set es. unlocked h e \<Longrightarrow> fst (chk pub mr sr) = None \<Longrightarrow>
   verify_loop chk h pub es (mr, sr, err) = (True, None)"
  by (induction es) (auto split: prod.splits)

lemma verify_loop_single:
  "filter (unlocked h) es = [e] \<Longrightarrow>
   verify_loop chk h pub es (mr, sr, err) =
     (if fst (chk pub mr sr) = None \<or> fst (chk pub mr sr) = Some ErrSignatureExpired
      then (True, fst (chk pub mr sr)) else (False, fst (chk pub mr sr)))"
proof (induction es)
  case Nil
  then show ?case by simp
next
  case (Cons x xs)
  show ?case
  proof (cases "unlocked h x")
    case True
    with Cons.prems have "filter (unlocked h) xs = []" by simp
    then have "\<forall>y \<in> set xs. \<not> unlocked h y" by (simp add: filter_empty_conv)
    then have rest: "\<And>a b c. verify_loop chk h pub xs (a, b, c) = (False, c)"
      by (rule verify_loop_locked)
    show ?thesis using True rest by (auto split: prod.splits)
  next
    case False
    with Cons.prems have "filter (unlocked h) xs = [e]" by simp
    from Cons.IH[OF this] False show ?thesis by simp
  qed
qed

text \<open>
  C8, as stated, has an expired signature treated as a successful verification, in the
  same way as on the decrypt path. With an unlocked signer and a signature that the engine
  reports as expired, \<open>VerifyString\<close> returns \<open>ErrSignatureExpired\<close>, an error that is not
  nil, just as it returns the engine's error for a signature that does not verify;
  \<open>DecryptString\<close>, for a message with an expired signature, returns a nil error.
\<close>

theorem VerifyString_expired_returns_error_counterexample:
  "VerifyString ex_check ex_store ring_bob ''text'' ''expired'' (Some ring_bob)
     = Some ErrSignatureExpired \<and>
   VerifyString ex_check ex_store ring_bob ''text'' ''expired'' (Some ring_bob) \<noteq> None \<and>
   VerifyString ex_check ex_store ring_bob ''text'' ''forged'' (Some ring_bob)
     = Some (EngineError ''invalid signature'') \<and>
   DecryptString ex_Decode ex_ReadMessage ring_bob ''expired''
     = Return (\<lparr>String = ''hello'', Signed = Some \<lparr>md = md_expired\<rparr>\<rparr>, None)"
  by (simp add: VerifyString_def NewReader_def ring_bob_def bob_def unlocked_def ex_store_def
      DecryptString_def DecryptArmored_def Decrypt_def PGPMessageHeader_def md_expired_def)

text \<open>
  C8, amended. For every message, detached signature and signer ring: \<open>VerifyString\<close>
  returns \<open>errKeyringNotUnlocked\<close> when no entity of the signer ring has a decrypted
  private key (an entity is \<open>unlocked\<close> when its private key is present and not
  encrypted), and also when there is no signer ring. When some entity is unlocked and the
  engine reports the signature as expired, \<open>VerifyString\<close> stops at that check, whatever
  the engine would say to a further one, and returns the value \<open>ErrSignatureExpired\<close>
  itself. When the engine reports no error it returns nil. When exactly one entity is
  unlocked, any error of the engine is what \<open>VerifyString\<close> returns.
\<close>

theorem VerifyString_returns_engine_verdict:
  "((\<forall>e \<in> set (entities signer). \<not> unlocked h e) \<longrightarrow>
      VerifyString chk h kr message signature (Some signer) = Some errKeyringNotUnlocked) \<and>
   VerifyString chk h kr message signature None = Some errKeyringNotUnlocked \<and>
   ((\<exists>e \<in> set (entities signer). unlocked h e) \<and>
    fst (chk (entities kr) (NewReader message) (NewReader signature)) = Some ErrSignatureExpired \<longrightarrow>
      VerifyString chk h kr message signature (Some signer) = Some ErrSignatureExpired) \<and>
   ((\<exists>e \<in> set (entities signer). unlocked h e) \<and>
    fst (chk (entities kr) (NewReader message) (NewReader signature)) = None \<longrightarrow>
      VerifyString chk h kr message signature (Some signer) = None) \<and>
   (filter (unlocked h) (entities signer) = [e] \<and>
    fst (chk (entities kr) (NewReader message) (NewReader signature)) \<noteq> None \<longrightarrow>
      VerifyString chk h kr message signature (Some signer)
        = fst (chk (entities kr) (NewReader message) (NewReader signature)))"
proof -
  have single: "VerifyString chk h kr message signature (Some signer)
        = fst (chk (entities kr) (NewReader message) (NewReader signature))"
    if "filter (unlocked h) (entities signer) = [e]"
       "fst (chk (entities kr) (NewReader message) (NewReader signature)) \<noteq> None"
    using that(2)
    by (auto simp: VerifyString_def Let_def verify_loop_single[OF that(1)] split: if_splits)
  show ?thesis
    using single
    by (auto simp: VerifyString_def verify_loop_locked verify_loop_expired verify_loop_accepted)
qed

text \<open>
  The keys of \<open>alice\<close> are encrypted; \<open>bob\<close> and \<open>dave\<close> are both unlocked, and the
  example engine, asked a second time, would find the readers at their end and report an
  invalid signature.
\<close>

theorem VerifyString_returns_engine_verdict_witness:
  "VerifyString ex_check ex_store ring_bob ''text'' ''expired'' (Some ring_alice)
     = Some errKeyringNotUnlocked \<and>
   VerifyString ex_check ex_store ring_bob ''text'' ''expired'' (Some ring_bob_dave)
     = Some ErrSignatureExpired \<and>
   fst (ex_check (entities ring_bob) (Reader [] None) (Reader [] None))
     = Some (EngineError ''invalid signature'') \<and>
   VerifyString ex_check ex_store ring_bob ''text'' ''good'' (Some ring_bob_dave) = None \<and>
   VerifyString ex_check ex_store ring_bob ''text'' ''forged'' (Some ring_alice_bob)
     = Some (EngineError ''invalid signature'')"
proof -
  have locked: "\<forall>e \<in> set (entities ring_alice). \<not> unlocked ex_store e"
    by (simp add: ring_alice_def alice_def unlocked_def ex_store_def)
  have two: "\<exists>e \<in> set (entities ring_bob_dave). unlocked ex_store e"
    by (simp add: ring_bob_dave_def bob_def unlocked_def ex_store_def)
  have one: "filter (unlocked ex_store) (entities ring_alice_bob) = [bob]"
    by (simp add: ring_alice_bob_def alice_def bob_def unlocked_def ex_store_def)
  have expired: "fst (ex_check (entities ring_bob) (NewReader ''text'') (NewReader ''expired''))
      = Some ErrSignatureExpired"
    by (simp add: NewReader_def)
  have good: "fst (ex_check (entities ring_bob) (NewReader ''text'') (NewReader ''good'')) = None"
    by (simp add: NewReader_def)
  have forged: "fst (ex_check (entities ring_bob) (NewReader ''text'') (NewReader ''forged''))
      = Some (EngineError ''invalid signature'')"
    by (simp add: NewReader_def)
  have drained: "fst (ex_check (entities ring_bob) (Reader [] None) (Reader [] None))
     = Some (EngineError ''invalid signature'')"
    by simp
  note a = VerifyString_returns_engine_verdict[where signer = ring_alice and h = ex_store
      and chk = ex_check and kr = ring_bob and message = "''text''" and signature = "''expired''",
      THEN conjunct1, THEN mp, OF locked]
  note b = VerifyString_returns_engine_verdict[where signer = ring_bob_dave and h = ex_store
      and chk = ex_check and kr = ring_bob and message = "''text''" and signature = "''expired''",
      THEN conjunct2, THEN conjunct2, THEN conjunct1, THEN mp, OF conjI, OF two expired]
  note c = VerifyString_returns_engine_verdict[where signer = ring_bob_dave and h = ex_store
      and chk = ex_check and kr = ring_bob and message = "''text''" and signature = "''good''",
      THEN conjunct2, THEN conjunct2, THEN conjunct2, THEN conjunct1, THEN mp, OF conjI,
      OF two good]
  have ne: "fst (ex_check (entities ring_bob) (NewReader ''text'') (NewReader ''forged'')) \<noteq> None"
    using forged by simp
  note d = VerifyString_returns_engine_verdict[where signer = ring_alice_bob and h = ex_store
      and chk = ex_check and kr = ring_bob and message = "''text''" and signature = "''forged''"
      and e = bob,
      THEN conjunct2, THEN conjunct2, THEN conjunct2, THEN conjunct2, THEN mp, OF conjI,
      OF one ne]
  from a b drained c d forged show ?thesis by simp
qed

section \<open>Closing the armored encryption writer\<close>

text \<open>
  C9. For every armored encryption writer, \<open>Close\<close> first closes the encryption stream
  \<open>ew\<close>. When that fails, its error is returned, the state is the one that closing \<open>ew\<close>
  left, and the only call logged is that one: \<open>Close\<close> of the armor stream \<open>aw\<close> is not
  invoked. When it succeeds, \<open>aw\<close> is closed next and its error returned.
\<close>

theorem armorEncryptWriter_Close_order:
  assumes "armorEncryptWriter_Close cl w (s, log) = (err, s', log')"
  shows "(fst (cl (ew w) s) \<noteq> None \<longrightarrow>
            err = fst (cl (ew w) s) \<and> s' = snd (cl (ew w) s) \<and> log' = log @ [Closed (ew w)]) \<and>
         (fst (cl (ew w) s) = None \<longrightarrow>
            err = fst (cl (aw w) (snd (cl (ew w) s))) \<and>
            s' = snd (cl (aw w) (snd (cl (ew w) s))) \<and>
            log' = log @ [Closed (ew w), Closed (aw w)])"
  using assms
  by (auto simp: armorEncryptWriter_Close_def call_Close_def split: prod.splits if_splits)

text \<open>
  The stream 7 fails to close, the streams 1 and 2 close.
\<close>

theorem armorEncryptWriter_Close_order_witness:
  "armorEncryptWriter_Close ex_close \<lparr>aw = 1, ew = 7\<rparr> (0, [])
     = (Some (EngineError ''flush failed''), 1, [Closed 7]) \<and>
   armorEncryptWriter_Close ex_close \<lparr>aw = 1, ew = 2\<rparr> (0, [])
     = (None, 2, [Closed 2, Closed 1])"
proof -
  have a: "armorEncryptWriter_Close ex_close \<lparr>aw = 1, ew = 7\<rparr> (0, [])
     = (fst (armorEncryptWriter_Close ex_close \<lparr>aw = 1, ew = 7\<rparr> (0, [])),
        fst (snd (armorEncryptWriter_Close ex_close \<lparr>aw = 1, ew = 7\<rparr> (0, []))),
        snd (snd (armorEncryptWriter_Close ex_close \<lparr>aw = 1, ew = 7\<rparr> (0, []))))"
    by simp
  have b: "armorEncryptWriter_Close ex_close \<lparr>aw = 1, ew = 2\<rparr> (0, [])
     = (fst (armorEncryptWriter_Close ex_close \<lparr>aw = 1, ew = 2\<rparr> (0, [])),
        fst (snd (armorEncryptWriter_Close ex_close \<lparr>aw = 1, ew = 2\<rparr> (0, []))),
        snd (snd (armorEncryptWriter_Close ex_close \<lparr>aw = 1, ew = 2\<rparr> (0, []))))"
    by simp
  have fails: "fst (ex_close (ew \<lparr>aw = 1, ew = 7\<rparr>) 0) \<noteq> None"
    and closes: "fst (ex_close (ew \<lparr>aw = 1, ew = 2\<rparr>) 0) = None"
    by (simp_all add: ex_close_def)
  from armorEncryptWriter_Close_order[OF a, THEN conjunct1, rule_format, OF fails]
  have 1: "armorEncryptWriter_Close ex_close \<lparr>aw = 1, ew = 7\<rparr> (0, [])
     = (Some (EngineError ''flush failed''), 1, [Closed 7])"
    by (subst a) (simp add: ex_close_def)
  from armorEncryptWriter_Close_order[OF b, THEN conjunct2, rule_format, OF closes]
  have 2: "armorEncryptWriter_Close ex_close \<lparr>aw = 1, ew = 2\<rparr> (0, [])
     = (None, 2, [Closed 2, Closed 1])"
    by (subst b) (simp add: ex_close_def)
  from 1 2 show ?thesis by (rule conjI)
qed

section \<open>What DecryptString returns with an error\<close>

text \<open>
  C10. For every input string on which \<open>DecryptString\<close> returns an error, at whichever
  step it arose (armor decoding, the type of the armor block, reading the message, reading
  the body), the error is not \<open>ErrSignatureExpired\<close> and the \<open>SignedString\<close> returned with
  it has the unchanged input as its \<open>String\<close> and a nil \<open>Signed\<close>.
\<close>

theorem DecryptString_error_keeps_input:
  assumes "DecryptString Decode ReadMessage kr encrypted = Return (ss, Some e)"
  shows "ss = \<lparr>String = encrypted, Signed = None\<rparr> \<and> e \<noteq> ErrSignatureExpired"
  using assms
  by (auto simp: DecryptString_def split: go.splits prod.splits if_splits option.splits)

text \<open>
  One input for each step: no armor, an armor block of another type, packets the engine
  cannot read, and a body that breaks off.
\<close>

theorem DecryptString_error_keeps_input_witness:
  "DecryptString ex_Decode ex_ReadMessage ring_alice ''plain text''
     = Return (\<lparr>String = ''plain text'', Signed = None\<rparr>, Some (EngineError ''no armored data found'')) \<and>
   DecryptString ex_Decode ex_ReadMessage ring_alice ''public key''
     = Return (\<lparr>String = ''public key'', Signed = None\<rparr>, Some errNotArmoredMessage) \<and>
   DecryptString ex_Decode ex_ReadMessage ring_alice ''garbage''
     = Return (\<lparr>String = ''garbage'', Signed = None\<rparr>, Some (EngineError ''unknown packet'')) \<and>
   DecryptString ex_Decode ex_ReadMessage ring_alice ''truncated''
     = Return (\<lparr>String = ''truncated'', Signed = None\<rparr>, Some (EngineError ''unexpected EOF'')) \<and>
   EngineError ''unexpected EOF'' \<noteq> ErrSignatureExpired"
proof -
  have run: "DecryptString ex_Decode ex_ReadMessage ring_alice ''truncated''
     = Return (\<lparr>String = ''truncated'', Signed = None\<rparr>, Some (EngineError ''unexpected EOF''))"
    by (simp add: DecryptString_def DecryptArmored_def Decrypt_def NewReader_def
        PGPMessageHeader_def md_truncated_def)
  note kept = DecryptString_error_keeps_input[OF run]
  have rest: "DecryptString ex_Decode ex_ReadMessage ring_alice ''plain text''
     = Return (\<lparr>String = ''plain text'', Signed = None\<rparr>, Some (EngineError ''no armored data found'')) \<and>
   DecryptString ex_Decode ex_ReadMessage ring_alice ''public key''
     = Return (\<lparr>String = ''public key'', Signed = None\<rparr>, Some errNotArmoredMessage) \<and>
   DecryptString ex_Decode ex_ReadMessage ring_alice ''garbage''
     = Return (\<lparr>String = ''garbage'', Signed = None\<rparr>, Some (EngineError ''unknown packet''))"
    by (simp add: DecryptString_def DecryptArmored_def Decrypt_def NewReader_def
        PGPMessageHeader_def)
  from rest run kept show ?thesis by blast
qed

end
